theory Spec2Isabelle
  imports Complex_Main "HOL-Library.Word" "HOL-Library.Multiset"
begin

section \<open>Topbeat: sampling, percentage derivation and process matching\<close>

text \<open>
  A shallow embedding of \<^verbatim>\<open>main.go\<close> of topbeat: the rounding helper \<^verbatim>\<open>Round\<close>,
  the percentage operations of \<^verbatim>\<open>Topbeat\<close>, the process matcher and the
  sampling loop. Methods on \<^verbatim>\<open>*Topbeat\<close> take the state and return it updated.
\<close>

subsection \<open>float64\<close>

text \<open>
  A \<^verbatim>\<open>float64\<close> is a finite number, an infinity or NaN. A finite value is kept as
  the rational it denotes. Arithmetic is IEEE 754 binary64 as Go implements it: the exact
  result is rounded to the nearest representable number, ties to the even significand
  (\<open>round64\<close>), a result of magnitude \<open>2^1024\<close> or more overflows to an infinity, a
  non-zero finite number divided by zero is an infinity, zero divided by zero is NaN,
  every comparison with NaN is false, and NaN propagates. The sign of zero is not
  kept: every divisor in \<^verbatim>\<open>main.go\<close> is converted from an integer or is a power of
  ten, so a zero divisor there is always the positive zero.
\<close>

datatype float64 = Finite rat | PosInf | NegInf | NaN

text \<open>The number of binary digits of a positive integer.\<close>

function bits :: "int \<Rightarrow> nat" where
  "bits n = (if n \<le> 0 then 0 else Suc (bits (n div 2)))"
  by pat_completeness auto
termination
  by (relation "measure nat") auto

text \<open>For \<open>0 < q\<close>, the exponent \<open>e\<close> with \<open>2^e \<le> q < 2^(e+1)\<close>.\<close>

definition ilog2 :: "rat \<Rightarrow> int" where
  "ilog2 q = (if 1 \<le> q then int (bits \<lfloor>q\<rfloor>) - 1
              else - int (bits (\<lceil>1 / q\<rceil> - 1)))"

text \<open>The nearest integer, a tie going to the even one.\<close>

definition rne :: "rat \<Rightarrow> int" where
  "rne x = (let f = \<lfloor>x\<rfloor>; r = x - of_int f
            in if r < 1 / 2 then f else if 1 / 2 < r then f + 1
               else if even f then f else f + 1)"

text \<open>
  Rounding to binary64: a significand of 53 bits, the exponent of a normal number at
  least \<open>- 1022\<close> (below it the spacing of the subnormal numbers, \<open>2^(- 1074)\<close>, stays).
\<close>

definition round64 :: "rat \<Rightarrow> float64" where
  "round64 q =
     (if q = 0 then Finite 0
      else let a = \<bar>q\<bar>;
               e = max (ilog2 a) (- 1022);
               ulp = 2 powi (e - 52);
               m = of_int (rne (a / ulp)) * ulp
           in if of_int (2 ^ 1024) \<le> m then (if 0 < q then PosInf else NegInf)
              else Finite (sgn q * m))"

fun fmul :: "float64 \<Rightarrow> float64 \<Rightarrow> float64" where
  "fmul NaN _ = NaN"
| "fmul _ NaN = NaN"
| "fmul (Finite a) (Finite b) = round64 (a * b)"
| "fmul (Finite a) PosInf = (if a = 0 then NaN else if 0 < a then PosInf else NegInf)"
| "fmul (Finite a) NegInf = (if a = 0 then NaN else if 0 < a then NegInf else PosInf)"
| "fmul PosInf (Finite b) = (if b = 0 then NaN else if 0 < b then PosInf else NegInf)"
| "fmul NegInf (Finite b) = (if b = 0 then NaN else if 0 < b then NegInf else PosInf)"
| "fmul PosInf PosInf = PosInf"
| "fmul PosInf NegInf = NegInf"
| "fmul NegInf PosInf = NegInf"
| "fmul NegInf NegInf = PosInf"

fun fdiv :: "float64 \<Rightarrow> float64 \<Rightarrow> float64" where
  "fdiv NaN _ = NaN"
| "fdiv _ NaN = NaN"
| "fdiv (Finite a) (Finite b) =
     (if b = 0 then (if a = 0 then NaN else if 0 < a then PosInf else NegInf)
      else round64 (a / b))"
| "fdiv (Finite a) PosInf = Finite 0"
| "fdiv (Finite a) NegInf = Finite 0"
| "fdiv PosInf (Finite b) = (if 0 \<le> b then PosInf else NegInf)"
| "fdiv NegInf (Finite b) = (if 0 \<le> b then NegInf else PosInf)"
| "fdiv PosInf PosInf = NaN"
| "fdiv PosInf NegInf = NaN"
| "fdiv NegInf PosInf = NaN"
| "fdiv NegInf NegInf = NaN"

text \<open>The comparison \<^verbatim>\<open>x >= y\<close>.\<close>

fun fge :: "float64 \<Rightarrow> float64 \<Rightarrow> bool" where
  "fge NaN _ = False"
| "fge _ NaN = False"
| "fge (Finite a) (Finite b) = (b \<le> a)"
| "fge (Finite a) PosInf = False"
| "fge (Finite a) NegInf = True"
| "fge PosInf _ = True"
| "fge NegInf NegInf = True"
| "fge NegInf _ = False"

text \<open>
  \<^verbatim>\<open>math.Floor\<close> and \<^verbatim>\<open>math.Ceil\<close> return an infinity or NaN unchanged; on a finite
  number they are exact, the result being representable.
\<close>

fun Floor :: "float64 \<Rightarrow> float64" where
  "Floor (Finite a) = Finite (of_int \<lfloor>a\<rfloor>)"
| "Floor x = x"

fun Ceil :: "float64 \<Rightarrow> float64" where
  "Ceil (Finite a) = Finite (of_int \<lceil>a\<rceil>)"
| "Ceil x = x"

text \<open>
  \<^verbatim>\<open>math.Modf(f)\<close>: the integer and the fractional part of \<open>f\<close>, both with the sign
  of \<open>f\<close> and both exact; a negative \<open>f\<close> is split as \<open>- f\<close> and both parts are
  negated. \<^verbatim>\<open>Modf(\<plusminus>Inf) = \<plusminus>Inf, NaN\<close> and \<^verbatim>\<open>Modf(NaN) = NaN, NaN\<close>.
\<close>

fun Modf :: "float64 \<Rightarrow> float64 \<times> float64" where
  "Modf (Finite a) =
     (if a < 0 then (Finite (- of_int \<lfloor>- a\<rfloor>), Finite (- (- a - of_int \<lfloor>- a\<rfloor>)))
      else (Finite (of_int \<lfloor>a\<rfloor>), Finite (a - of_int \<lfloor>a\<rfloor>)))"
| "Modf PosInf = (PosInf, NaN)"
| "Modf NegInf = (NegInf, NaN)"
| "Modf NaN = (NaN, NaN)"

text \<open>\<^verbatim>\<open>math.Pow(10, float64(places))\<close>.\<close>

definition Pow10 :: "int \<Rightarrow> float64" where
  "Pow10 places = round64 (10 powi places)"

text \<open>The conversion \<^verbatim>\<open>float64(x)\<close> of a \<^verbatim>\<open>uint64\<close>: exact up to \<open>2^53\<close>, rounded above.\<close>

definition float64_of_uint64 :: "64 word \<Rightarrow> float64" where
  "float64_of_uint64 w = round64 (of_int (uint w))"

subsection \<open>Round\<close>

text \<open>
  \<^verbatim>\<open>
  func Round(val float64, roundOn float64, places int) (newVal float64) {
      var round float64
      pow := math.Pow(10, float64(places))
      digit := pow * val
      _, div := math.Modf(digit)
      if div >= roundOn { round = math.Ceil(digit) } else { round = math.Floor(digit) }
      newVal = round / pow
      return
  }
  \<close>
\<close>

definition Round :: "float64 \<Rightarrow> float64 \<Rightarrow> int \<Rightarrow> float64" where
  "Round val roundOn places =
     (let pow = Pow10 places;
          digit = fmul pow val;
          div' = snd (Modf digit);
          round = (if fge div' roundOn then Ceil digit else Floor digit)
      in fdiv round pow)"

text \<open>
  The rounding rule in the words of its description: scale the value by \<open>10^places\<close>,
  split the scaled value into its integer and fractional parts, take the ceiling of the
  scaled value if the fractional part is at least the threshold and the floor otherwise,
  and divide back by \<open>10^places\<close>. The integer part is the value truncated towards
  zero, the fractional part what is left.
\<close>

fun integer_part :: "float64 \<Rightarrow> float64" where
  "integer_part (Finite a) = Finite (if a < 0 then of_int \<lceil>a\<rceil> else of_int \<lfloor>a\<rfloor>)"
| "integer_part x = x"

fun fractional_part :: "float64 \<Rightarrow> float64" where
  "fractional_part (Finite a) = Finite (a - (if a < 0 then of_int \<lceil>a\<rceil> else of_int \<lfloor>a\<rfloor>))"
| "fractional_part x = NaN"

definition roundHalfUp :: "float64 \<Rightarrow> float64 \<Rightarrow> int \<Rightarrow> float64" where
  "roundHalfUp v threshold places =
     (let scale = Pow10 places;
          scaled = fmul v scale
      in fdiv (if fge (fractional_part scaled) threshold then Ceil scaled else Floor scaled)
           scale)"

text \<open>Round-half-up of a rational to \<open>places\<close> decimals, in exact arithmetic.\<close>

definition half_up :: "rat \<Rightarrow> int \<Rightarrow> rat" where
  "half_up v places = of_int \<lfloor>v * 10 powi places + 1 / 2\<rfloor> / 10 powi places"

subsection \<open>Data\<close>

text \<open>
  The structs that \<^verbatim>\<open>main.go\<close> reads and writes. A counter is a \<^verbatim>\<open>uint64\<close>:
  subtraction and multiplication wrap around at \<open>2^64\<close>. A capture time
  (\<^verbatim>\<open>ctime\<close>) is an instant in nanoseconds.
\<close>

datatype error = Error string

record CpuTimes =
  User :: "64 word"
  Nice :: "64 word"
  System :: "64 word"
  Idle :: "64 word"
  IOWait :: "64 word"
  Irq :: "64 word"
  SoftIrq :: "64 word"
  Steal :: "64 word"
  UserPercent :: float64

record MemStat =
  Total :: "64 word"
  Used :: "64 word"
  Free :: "64 word"
  ActualUsed :: "64 word"
  ActualFree :: "64 word"
  UsedPercent :: float64

record SystemLoad =
  Load1 :: float64
  Load5 :: float64
  Load15 :: float64

record ProcMemStat =
  Rss :: "64 word"
  RssPercent :: float64

record ProcCpuTime =
  User :: "64 word"
  System :: "64 word"
  UserPercent :: float64

record Process =
  Pid :: int
  Ppid :: int
  Name :: string
  State :: string
  Mem :: ProcMemStat
  Cpu :: ProcCpuTime
  ctime :: int

text \<open>
  An event sent on the channel (a \<^verbatim>\<open>common.MapStr\<close>), by its \<^verbatim>\<open>type\<close>: the fields
  of a \<^verbatim>\<open>system\<close> event are load, cpu, mem and swap, those of a \<^verbatim>\<open>proc\<close> event are
  pid, ppid, name, state, mem and cpu. The timestamp is left out.
\<close>

datatype event =
  is_SystemEvent: SystemEvent SystemLoad CpuTimes MemStat MemStat
| is_ProcEvent: ProcEvent int int string string ProcMemStat ProcCpuTime

text \<open>A line written through \<^verbatim>\<open>logp\<close>: the level, the format and the arguments.\<close>

datatype log_arg = ArgError error | ArgInt int | ArgInts "int list" | ArgStrings "string list"
  | ArgDuration "64 word"

datatype log_entry = Warn string "log_arg list" | Debug string string "log_arg list"

text \<open>
  The state of a \<^verbatim>\<open>Topbeat\<close>. \<^verbatim>\<open>procsMap\<close> maps a pid to the stored snapshot of the
  process, \<^verbatim>\<open>lastCpuTimes\<close> is \<open>None\<close> for the nil pointer. \<open>events\<close> is the
  sequence of events sent on the channel so far, \<open>logged\<close> the lines written to the
  log so far.
\<close>

record Topbeat =
  isAlive :: bool
  period :: "64 word"
  procs :: "string list"
  procsMap :: "int \<rightharpoonup> Process"
  lastCpuTimes :: "CpuTimes option"
  events :: "event list"
  logged :: "log_entry list"

record TopConfig =
  Period :: "64 word option"
  Procs :: "string list option"

text \<open>
  What the operating system answers during one pass: the result of each query of
  \<^verbatim>\<open>exportSystemStats\<close>, the result of \<^verbatim>\<open>Pids()\<close> (Go returns the list and the
  error side by side), the result of \<^verbatim>\<open>GetProcess(pid)\<close> for each pid, and the result
  of the \<^verbatim>\<open>GetMemory()\<close> call made while that pid is handled.
\<close>

record sources =
  GetSystemLoad :: "error + SystemLoad"
  GetCpuTimes :: "error + CpuTimes"
  GetMemory :: "error + MemStat"
  GetSwap :: "error + MemStat"
  Pids :: "int list \<times> error option"
  GetProcess :: "int \<Rightarrow> error + Process"
  GetMemoryFor :: "int \<Rightarrow> error + MemStat"

definition logp_Warn :: "string \<Rightarrow> log_arg list \<Rightarrow> Topbeat \<Rightarrow> Topbeat" where
  "logp_Warn format args t = t\<lparr>logged := logged t @ [Warn format args]\<rparr>"

definition logp_Debug :: "string \<Rightarrow> string \<Rightarrow> log_arg list \<Rightarrow> Topbeat \<Rightarrow> Topbeat" where
  "logp_Debug selector format args t = t\<lparr>logged := logged t @ [Debug selector format args]\<rparr>"

subsection \<open>The process matcher\<close>

text \<open>
  \<^verbatim>\<open>regexp.MatchString(pattern, s)\<close> of Go's library compiles the pattern and, if that
  fails, returns \<^verbatim>\<open>false\<close> and the error; otherwise it reports whether the compiled
  expression matches somewhere in \<open>s\<close>. The compiler and the matcher of the library
  are the parameters \<open>Compile\<close> and \<open>match\<close>.
\<close>

definition regexp_MatchString ::
  "(string \<Rightarrow> error + 're) \<Rightarrow> ('re \<Rightarrow> string \<Rightarrow> bool) \<Rightarrow> string \<Rightarrow> string \<Rightarrow> bool \<times> error option"
where
  "regexp_MatchString Compile match pattern s =
     (case Compile pattern of
        Inl err \<Rightarrow> (False, Some err)
      | Inr re \<Rightarrow> (match re s, None))"

text \<open>
  \<^verbatim>\<open>
  func (t *Topbeat) MatchProcess(name string) bool {
      for _, reg := range t.procs {
          matched, _ := regexp.MatchString(reg, name)
          if matched { return true }
      }
      return false
  }
  \<close>
\<close>

fun MatchProcess_loop ::
  "(string \<Rightarrow> string \<Rightarrow> bool \<times> error option) \<Rightarrow> string list \<Rightarrow> string \<Rightarrow> bool"
where
  "MatchProcess_loop MatchString [] name = False"
| "MatchProcess_loop MatchString (reg # regs) name =
     (let (matched, _) = MatchString reg name
      in if matched then True else MatchProcess_loop MatchString regs name)"

definition MatchProcess ::
  "(string \<Rightarrow> string \<Rightarrow> bool \<times> error option) \<Rightarrow> Topbeat \<Rightarrow> string \<Rightarrow> bool"
where
  "MatchProcess MatchString t name = MatchProcess_loop MatchString (procs t) name"

subsection \<open>Percentages\<close>

text \<open>
  \<^verbatim>\<open>
  func (t *Topbeat) getUsedMemPercent(m *MemStat) float64 {
      if m.Total == 0 { return 0.0 }
      perc := float64(100*m.Used) / float64(m.Total)
      return Round(perc, .5, 2)
  }
  \<close>
\<close>

definition getUsedMemPercent :: "MemStat \<Rightarrow> float64" where
  "getUsedMemPercent m =
     (if Total m = 0 then Finite 0
      else let perc = fdiv (float64_of_uint64 (100 * Used m)) (float64_of_uint64 (Total m))
           in Round perc (Finite (1 / 2)) 2)"

text \<open>
  \<^verbatim>\<open>
  func (t *Topbeat) getRssPercent(m *ProcMemStat) float64 {
      mem_stat, err := GetMemory()
      if err != nil {
          logp.Warn("Getting memory details: %v", err)
          return 0.0
      }
      total_phymem := mem_stat.Total
      perc := (float64(m.Rss) / float64(total_phymem)) * 100
      return Round(perc, .5, 2)
  }
  \<close>
  The first argument is the result of the call of \<^verbatim>\<open>GetMemory()\<close>.
\<close>

definition getRssPercent :: "error + MemStat \<Rightarrow> ProcMemStat \<Rightarrow> Topbeat \<Rightarrow> float64 \<times> Topbeat" where
  "getRssPercent memory m t =
     (case memory of
        Inl err \<Rightarrow> (Finite 0, logp_Warn ''Getting memory details: %v'' [ArgError err] t)
      | Inr mem_stat \<Rightarrow>
          let total_phymem = Total mem_stat;
              perc = fmul (fdiv (float64_of_uint64 (Rss m)) (float64_of_uint64 total_phymem))
                       (Finite 100)
          in (Round perc (Finite (1 / 2)) 2, t))"

text \<open>
  \<^verbatim>\<open>
  func (t *CpuTimes) sum() uint64 {
      return t.User + t.Nice + t.System + t.Idle + t.IOWait + t.Irq + t.SoftIrq + t.Steal
  }
  \<close>
\<close>

definition sum_CpuTimes :: "CpuTimes \<Rightarrow> 64 word" where
  "sum_CpuTimes t = CpuTimes.User t + Nice t + CpuTimes.System t + Idle t + IOWait t + Irq t
     + SoftIrq t + Steal t"

text \<open>
  \<^verbatim>\<open>
  func (t *Topbeat) getCpuPercentage(t2 *CpuTimes) float64 {
      t1 := t.lastCpuTimes
      perc := 0.0
      if t1 != nil {
          all_delta := t2.sum() - t1.sum()
          user_delta := t2.User - t1.User
          perc = float64(100*user_delta) / float64(all_delta)
      }
      t.lastCpuTimes = t2
      return Round(perc, .5, 2)
  }
  \<close>
\<close>

definition getCpuPercentage :: "CpuTimes \<Rightarrow> Topbeat \<Rightarrow> float64 \<times> Topbeat" where
  "getCpuPercentage t2 t =
     (let perc =
        (case lastCpuTimes t of
           None \<Rightarrow> Finite 0
         | Some t1 \<Rightarrow>
             let all_delta = sum_CpuTimes t2 - sum_CpuTimes t1;
                 user_delta = CpuTimes.User t2 - CpuTimes.User t1
             in fdiv (float64_of_uint64 (100 * user_delta)) (float64_of_uint64 all_delta))
      in (Round perc (Finite (1 / 2)) 2, t\<lparr>lastCpuTimes := Some t2\<rparr>))"

text \<open>
  \<^verbatim>\<open>t.Sub(u)\<close> of two instants is a \<^verbatim>\<open>Duration\<close>, an \<^verbatim>\<open>int64\<close> of nanoseconds: the
  difference, or the largest (smallest) duration when the difference is out of range.
  The division of two \<^verbatim>\<open>int64\<close> truncates towards zero.
\<close>

definition Sub :: "int \<Rightarrow> int \<Rightarrow> int" where
  "Sub t u = max (- (2 ^ 63)) (min (2 ^ 63 - 1) (t - u))"

definition quo :: "int \<Rightarrow> int \<Rightarrow> int" where
  "quo a b = sgn a * sgn b * (\<bar>a\<bar> div \<bar>b\<bar>)"

definition float64_of_int64 :: "int \<Rightarrow> float64" where
  "float64_of_int64 i = round64 (of_int i)"

text \<open>
  \<^verbatim>\<open>
  func (t *Topbeat) getProcCpuPercentage(proc *Process) float64 {
      oproc, ok := t.procsMap[proc.Pid]
      if ok {
          delta_proc := (proc.Cpu.User - oproc.Cpu.User) + (proc.Cpu.System - oproc.Cpu.System)
          delta_time := proc.ctime.Sub(oproc.ctime).Nanoseconds() / 1e6 // in milliseconds
          perc := float64(delta_proc) / float64(delta_time) * 100
          t.procsMap[proc.Pid] = proc
          return Round(perc, .5, 2)
      }
      return 0
  }
  \<close>
\<close>

definition getProcCpuPercentage :: "Process \<Rightarrow> Topbeat \<Rightarrow> float64 \<times> Topbeat" where
  "getProcCpuPercentage proc t =
     (case procsMap t (Pid proc) of
        Some oproc \<Rightarrow>
          let delta_proc = (ProcCpuTime.User (Cpu proc) - ProcCpuTime.User (Cpu oproc))
                + (ProcCpuTime.System (Cpu proc) - ProcCpuTime.System (Cpu oproc));
              delta_time = quo (Sub (ctime proc) (ctime oproc)) 1000000;
              perc = fmul (fdiv (float64_of_uint64 delta_proc) (float64_of_int64 delta_time))
                       (Finite 100)
          in (Round perc (Finite (1 / 2)) 2, t\<lparr>procsMap := (procsMap t)(Pid proc \<mapsto> proc)\<rparr>)
      | None \<Rightarrow> (Finite 0, t))"

subsection \<open>Configuration and sampling\<close>

text \<open>
  \<^verbatim>\<open>
  func (t *Topbeat) Init(config TopConfig, events chan common.MapStr) error {
      if config.Period != nil {
          t.period = time.Duration(*config.Period) * time.Second
      } else {
          t.period = 1 * time.Second
      }
      if config.Procs != nil {
          t.procs = *config.Procs
      } else {
          t.procs = []string{".*"} //all processes
      }
      logp.Debug("topbeat", "Init toppbeat")
      logp.Debug("topbeat", "Follow processes %q\n", t.procs)
      logp.Debug("topbeat", "Period %v\n", t.period)
      t.events = events
      return nil
  }
  \<close>
  The channel is given by the events it holds.
\<close>

definition Init :: "TopConfig \<Rightarrow> event list \<Rightarrow> Topbeat \<Rightarrow> error option \<times> Topbeat" where
  "Init config evs t =
     (let t1 = (case Period config of
                  Some p \<Rightarrow> t\<lparr>period := p * 1000000000\<rparr>
                | None \<Rightarrow> t\<lparr>period := 1 * 1000000000\<rparr>);
          t2 = (case Procs config of
                  Some ps \<Rightarrow> t1\<lparr>procs := ps\<rparr>
                | None \<Rightarrow> t1\<lparr>procs := [''.*'']\<rparr>);
          t3 = logp_Debug ''topbeat'' ''Init toppbeat'' [] t2;
          t4 = logp_Debug ''topbeat'' ''Follow processes %q'' [ArgStrings (procs t3)] t3;
          t5 = logp_Debug ''topbeat'' ''Period %v'' [ArgDuration (period t4)] t4
      in (None, t5\<lparr>events := evs\<rparr>))"

text \<open>
  \<^verbatim>\<open>
  func (t *Topbeat) initProcStats() {
      t.procsMap = make(ProcsMap)
      if len(t.procs) == 0 { return }
      pids, err := Pids()
      if err != nil { logp.Warn("Getting the list of pids: %v", err) }
      logp.Debug("topbeat", "Pids: %v\n", pids)
      for _, pid := range pids {
          process, err := GetProcess(pid)
          if err != nil {
              logp.Debug("topbeat", "Skip process %d: %v", pid, err)
              continue
          }
          t.procsMap[process.Pid] = process
      }
  }
  \<close>
\<close>

fun initProcStats_loop :: "(int \<Rightarrow> error + Process) \<Rightarrow> int list \<Rightarrow> Topbeat \<Rightarrow> Topbeat" where
  "initProcStats_loop get [] t = t"
| "initProcStats_loop get (pid # pids) t =
     (case get pid of
        Inl err \<Rightarrow>
          initProcStats_loop get pids
            (logp_Debug ''topbeat'' ''Skip process %d: %v'' [ArgInt pid, ArgError err] t)
      | Inr process \<Rightarrow>
          initProcStats_loop get pids (t\<lparr>procsMap := (procsMap t)(Pid process \<mapsto> process)\<rparr>))"

definition initProcStats :: "sources \<Rightarrow> Topbeat \<Rightarrow> Topbeat" where
  "initProcStats src t =
     (let t1 = t\<lparr>procsMap := Map.empty\<rparr>
      in if length (procs t1) = 0 then t1
         else let (pids, err) = Pids src;
                  t2 = (case err of
                          Some e \<Rightarrow> logp_Warn ''Getting the list of pids: %v'' [ArgError e] t1
                        | None \<Rightarrow> t1);
                  t3 = logp_Debug ''topbeat'' ''Pids: %v'' [ArgInts pids] t2
              in initProcStats_loop (GetProcess src) pids t3)"

text \<open>
  \<^verbatim>\<open>
  func (t *Topbeat) exportProcStats() error {
      if len(t.procs) == 0 { return nil }
      pids, err := Pids()
      if err != nil {
          logp.Warn("Getting the list of pids: %v", err)
          return err
      }
      for _, pid := range pids {
          process, err := GetProcess(pid)
          if err != nil {
              logp.Debug("topbeat", "Skip process %d: %v", pid, err)
              continue
          }
          if t.MatchProcess(process.Name) {
              process.Cpu.UserPercent = t.getProcCpuPercentage(process)
              process.Mem.RssPercent = t.getRssPercent(&process.Mem)
              t.procsMap[process.Pid] = process
              event := common.MapStr{ "timestamp": ..., "type": "proc",
                  "proc.pid": process.Pid, "proc.ppid": process.Ppid,
                  "proc.name": process.Name, "proc.state": process.State,
                  "proc.mem": process.Mem, "proc.cpu": process.Cpu }
              t.events <- event
          }
      }
      return nil
  }
  \<close>
  \<open>exportProcStats_step\<close> is the body of the loop for a process that
  \<^verbatim>\<open>GetProcess\<close> returned. The map holds pointers: the snapshot that
  \<^verbatim>\<open>getProcCpuPercentage\<close> stores is the object whose percentages the two
  assignments then fill in, and the last store puts the same object, so the entry of the
  pid after the body is the snapshot with both percentages.
\<close>

definition exportProcStats_step ::
  "(string \<Rightarrow> string \<Rightarrow> bool \<times> error option) \<Rightarrow> error + MemStat \<Rightarrow> Process \<Rightarrow> Topbeat \<Rightarrow> Topbeat"
where
  "exportProcStats_step MatchString memory process t =
     (if MatchProcess MatchString t (Name process) then
        let (user_percent, t1) = getProcCpuPercentage process t;
            process1 = process\<lparr>Cpu := (Cpu process)\<lparr>ProcCpuTime.UserPercent := user_percent\<rparr>\<rparr>;
            (rss_percent, t2) = getRssPercent memory (Mem process1) t1;
            process2 = process1\<lparr>Mem := (Mem process1)\<lparr>RssPercent := rss_percent\<rparr>\<rparr>;
            t3 = t2\<lparr>procsMap := (procsMap t2)(Pid process2 \<mapsto> process2)\<rparr>;
            event = ProcEvent (Pid process2) (Ppid process2) (Name process2) (State process2)
                      (Mem process2) (Cpu process2)
        in t3\<lparr>events := events t3 @ [event]\<rparr>
      else t)"

fun exportProcStats_loop ::
  "(string \<Rightarrow> string \<Rightarrow> bool \<times> error option) \<Rightarrow> sources \<Rightarrow> int list \<Rightarrow> Topbeat \<Rightarrow> Topbeat"
where
  "exportProcStats_loop MatchString src [] t = t"
| "exportProcStats_loop MatchString src (pid # pids) t =
     (case GetProcess src pid of
        Inl err \<Rightarrow>
          exportProcStats_loop MatchString src pids
            (logp_Debug ''topbeat'' ''Skip process %d: %v'' [ArgInt pid, ArgError err] t)
      | Inr process \<Rightarrow>
          exportProcStats_loop MatchString src pids
            (exportProcStats_step MatchString (GetMemoryFor src pid) process t))"

definition exportProcStats ::
  "(string \<Rightarrow> string \<Rightarrow> bool \<times> error option) \<Rightarrow> sources \<Rightarrow> Topbeat \<Rightarrow> error option \<times> Topbeat"
where
  "exportProcStats MatchString src t =
     (if length (procs t) = 0 then (None, t)
      else let (pids, err) = Pids src
           in case err of
                Some e \<Rightarrow> (Some e, logp_Warn ''Getting the list of pids: %v'' [ArgError e] t)
              | None \<Rightarrow> (None, exportProcStats_loop MatchString src pids t))"

text \<open>
  \<^verbatim>\<open>
  func (t *Topbeat) exportSystemStats() error {
      load_stat, err := GetSystemLoad()
      if err != nil { logp.Warn("Getting load statistics: %v", err); return err }
      cpu_stat, err := GetCpuTimes()
      if err != nil { logp.Warn("Getting cpu times: %v", err); return err }
      cpu_stat.UserPercent = t.getCpuPercentage(cpu_stat)
      mem_stat, err := GetMemory()
      if err != nil { logp.Warn("Getting memory details: %v", err); return err }
      mem_stat.UsedPercent = t.getUsedMemPercent(mem_stat)
      swap_stat, err := GetSwap()
      if err != nil { logp.Warn("Getting swap details: %v", err); return err }
      swap_stat.UsedPercent = t.getUsedMemPercent(swap_stat)
      event := common.MapStr{ "timestamp": ..., "type": "system",
          "load": load_stat, "cpu": cpu_stat, "mem": mem_stat, "swap": swap_stat }
      t.events <- event
      return nil
  }
  \<close>
  \<^verbatim>\<open>t.lastCpuTimes\<close> points to \<^verbatim>\<open>cpu_stat\<close>, so the assignment of its
  \<^verbatim>\<open>UserPercent\<close> shows in the stored snapshot.
\<close>

definition exportSystemStats :: "sources \<Rightarrow> Topbeat \<Rightarrow> error option \<times> Topbeat" where
  "exportSystemStats src t =
     (case GetSystemLoad src of
        Inl err \<Rightarrow> (Some err, logp_Warn ''Getting load statistics: %v'' [ArgError err] t)
      | Inr load_stat \<Rightarrow>
     (case GetCpuTimes src of
        Inl err \<Rightarrow> (Some err, logp_Warn ''Getting cpu times: %v'' [ArgError err] t)
      | Inr cpu_stat0 \<Rightarrow>
          let (user_percent, t0) = getCpuPercentage cpu_stat0 t;
              cpu_stat = cpu_stat0\<lparr>CpuTimes.UserPercent := user_percent\<rparr>;
              t1 = t0\<lparr>lastCpuTimes := Some cpu_stat\<rparr>
          in
     (case GetMemory src of
        Inl err \<Rightarrow> (Some err, logp_Warn ''Getting memory details: %v'' [ArgError err] t1)
      | Inr mem_stat0 \<Rightarrow>
          let mem_stat = mem_stat0\<lparr>UsedPercent := getUsedMemPercent mem_stat0\<rparr>
          in
     (case GetSwap src of
        Inl err \<Rightarrow> (Some err, logp_Warn ''Getting swap details: %v'' [ArgError err] t1)
      | Inr swap_stat0 \<Rightarrow>
          let swap_stat = swap_stat0\<lparr>UsedPercent := getUsedMemPercent swap_stat0\<rparr>;
              event = SystemEvent load_stat cpu_stat mem_stat swap_stat
          in (None, t1\<lparr>events := events t1 @ [event]\<rparr>)))))"

text \<open>
  \<^verbatim>\<open>
  func (t *Topbeat) Run() error {
      t.isAlive = true
      t.initProcStats()
      for t.isAlive {
          time.Sleep(t.period)
          t.exportSystemStats()
          t.exportProcStats()
      }
      return nil
  }
  func (t *Topbeat) Stop() { t.isAlive = false }
  \<close>
  \<open>tick\<close> is one pass of the loop; both results are dropped, as in the source. A run
  is given by what the system answers at start-up and in each pass made before
  \<^verbatim>\<open>Stop\<close> is seen.
\<close>

definition Stop :: "Topbeat \<Rightarrow> Topbeat" where
  "Stop t = t\<lparr>isAlive := False\<rparr>"

definition tick ::
  "(string \<Rightarrow> string \<Rightarrow> bool \<times> error option) \<Rightarrow> sources \<Rightarrow> Topbeat \<Rightarrow> Topbeat"
where
  "tick MatchString src t =
     (let (_, t1) = exportSystemStats src t;
          (_, t2) = exportProcStats MatchString src t1
      in t2)"

fun Run_loop ::
  "(string \<Rightarrow> string \<Rightarrow> bool \<times> error option) \<Rightarrow> sources list \<Rightarrow> Topbeat \<Rightarrow> Topbeat"
where
  "Run_loop MatchString [] t = t"
| "Run_loop MatchString (src # srcs) t = Run_loop MatchString srcs (tick MatchString src t)"

definition Run ::
  "(string \<Rightarrow> string \<Rightarrow> bool \<times> error option) \<Rightarrow> sources \<Rightarrow> sources list \<Rightarrow> Topbeat
     \<Rightarrow> error option \<times> Topbeat"
where
  "Run MatchString start passes t =
     (let t1 = t\<lparr>isAlive := True\<rparr>;
          t2 = initProcStats start t1;
          t3 = Run_loop MatchString passes t2
      in (None, Stop t3))"

subsection \<open>A fragment of the regular expressions of Go\<close>

text \<open>
  The patterns built from literal characters, \<^verbatim>\<open>.\<close>, \<^verbatim>\<open>^\<close>, \<^verbatim>\<open>$\<close> and a postfix
  \<^verbatim>\<open>*\<close>, with the meaning \<^verbatim>\<open>regexp.Compile\<close> gives them: \<^verbatim>\<open>.\<close> is any character but
  a newline, \<^verbatim>\<open>^\<close> and \<^verbatim>\<open>$\<close> are the beginning and the end of the text, a \<^verbatim>\<open>*\<close> with
  nothing before it is the error "missing argument to repetition operator" and a
  \<^verbatim>\<open>*\<close> after a \<^verbatim>\<open>*\<close> the error "invalid nested repetition operator". A pattern
  with another metacharacter is outside the fragment and is refused here. A name is a
  sequence of characters, one \<open>char\<close> for each.
\<close>

datatype re = Literal char | AnyCharNotNL | BeginText | EndText | Star re | Concat re re
  | EmptyMatch

fun parse :: "string \<Rightarrow> re list \<Rightarrow> bool \<Rightarrow> error + re list" where
  "parse [] stack lastRepeat = Inr stack"
| "parse (c # cs) stack lastRepeat =
     (if c = CHR ''*'' then
        (if lastRepeat then Inl (Error ''invalid nested repetition operator'')
         else case stack of
                [] \<Rightarrow> Inl (Error ''missing argument to repetition operator'')
              | sub # rest \<Rightarrow> parse cs (Star sub # rest) True)
      else if c = CHR ''.'' then parse cs (AnyCharNotNL # stack) False
      else if c = CHR ''^'' then parse cs (BeginText # stack) False
      else if c = CHR ''$'' then parse cs (EndText # stack) False
      else if c \<in> set (CHR 0x5C # ''[](){}|+?'') then Inl (Error ''outside the fragment'')
      else parse cs (Literal c # stack) False)"

fun concat_re :: "re list \<Rightarrow> re" where
  "concat_re [] = EmptyMatch"
| "concat_re [r] = r"
| "concat_re (r # rs) = Concat r (concat_re rs)"

definition Compile :: "string \<Rightarrow> error + re" where
  "Compile pattern =
     (case parse pattern [] False of
        Inl err \<Rightarrow> Inl err
      | Inr stack \<Rightarrow> Inr (concat_re (rev stack)))"

text \<open>
  \<open>ends r s ps\<close>: the positions of \<open>s\<close> at which a match of \<open>r\<close> that starts at one
  of the positions \<open>ps\<close> can end. A repetition that consumes nothing adds no position,
  so \<open>length s\<close> rounds find every end of a \<open>Star\<close>.
\<close>

fun star_ends :: "(nat list \<Rightarrow> nat list) \<Rightarrow> nat \<Rightarrow> nat list \<Rightarrow> nat list" where
  "star_ends f 0 ps = ps"
| "star_ends f (Suc n) ps = ps @ star_ends f n (f ps)"

primrec ends :: "re \<Rightarrow> string \<Rightarrow> nat list \<Rightarrow> nat list" where
  "ends (Literal c) s ps = [Suc i. i \<leftarrow> ps, i < length s, s ! i = c]"
| "ends AnyCharNotNL s ps = [Suc i. i \<leftarrow> ps, i < length s, s ! i \<noteq> CHR 0x0A]"
| "ends BeginText s ps = [i. i \<leftarrow> ps, i = 0]"
| "ends EndText s ps = [i. i \<leftarrow> ps, i = length s]"
| "ends (Star r) s ps = star_ends (ends r s) (length s) ps"
| "ends (Concat r1 r2) s ps = ends r2 s (ends r1 s ps)"
| "ends EmptyMatch s ps = ps"

text \<open>\<^verbatim>\<open>re.MatchString(s)\<close>: a match may start anywhere in \<open>s\<close>.\<close>

definition re_MatchString :: "re \<Rightarrow> string \<Rightarrow> bool" where
  "re_MatchString r s = (ends r s [0..<Suc (length s)] \<noteq> [])"

definition MatchString :: "string \<Rightarrow> string \<Rightarrow> bool \<times> error option" where
  "MatchString = regexp_MatchString Compile re_MatchString"

subsection \<open>Notions used to state the properties\<close>

text \<open>The value of \<^verbatim>\<open>&Topbeat{}\<close>, as \<^verbatim>\<open>main\<close> creates it.\<close>

definition Topbeat_zero :: Topbeat where
  "Topbeat_zero = \<lparr>isAlive = False, period = 0, procs = [], procsMap = Map.empty,
     lastCpuTimes = None, events = [], logged = []\<rparr>"

text \<open>Two snapshots of a process that differ at most in the two percentages.\<close>

definition same_snapshot :: "Process \<Rightarrow> Process \<Rightarrow> bool" where
  "same_snapshot p q \<longleftrightarrow>
     Pid p = Pid q \<and> Ppid p = Ppid q \<and> Name p = Name q \<and> State p = State q
     \<and> Rss (Mem p) = Rss (Mem q)
     \<and> ProcCpuTime.User (Cpu p) = ProcCpuTime.User (Cpu q)
     \<and> ProcCpuTime.System (Cpu p) = ProcCpuTime.System (Cpu q)
     \<and> ctime p = ctime q"

text \<open>The snapshots that \<^verbatim>\<open>GetProcess\<close> returns for a list of pids, in order.\<close>

fun fetched :: "(int \<Rightarrow> error + Process) \<Rightarrow> int list \<Rightarrow> Process list" where
  "fetched get [] = []"
| "fetched get (pid # pids) =
     (case get pid of Inl err \<Rightarrow> fetched get pids | Inr process \<Rightarrow> process # fetched get pids)"

text \<open>A process with the given pid, name, cpu times (user, system) and capture time.\<close>

definition a_process :: "int \<Rightarrow> string \<Rightarrow> 64 word \<Rightarrow> 64 word \<Rightarrow> int \<Rightarrow> Process" where
  "a_process pid name user system captured =
     \<lparr>Pid = pid, Ppid = 1, Name = name, State = ''S'',
      Mem = \<lparr>Rss = 2000000, RssPercent = Finite 0\<rparr>,
      Cpu = \<lparr>ProcCpuTime.User = user, System = system, UserPercent = Finite 0\<rparr>,
      ctime = captured\<rparr>"

text \<open>
  Sources that list the given pids and answer \<^verbatim>\<open>GetProcess\<close> by the given function;
  every memory total is the given number.
\<close>

definition a_MemStat :: "64 word \<Rightarrow> MemStat" where
  "a_MemStat n = \<lparr>Total = n, Used = 0, Free = n, ActualUsed = 0,
     ActualFree = n, UsedPercent = Finite 0\<rparr>"

definition a_CpuTimes :: "64 word \<Rightarrow> 64 word \<Rightarrow> CpuTimes" where
  "a_CpuTimes user idle = \<lparr>CpuTimes.User = user, Nice = 0, System = 0, Idle = idle, IOWait = 0,
     Irq = 0, SoftIrq = 0, Steal = 0, UserPercent = Finite 0\<rparr>"

definition some_sources :: "int list \<Rightarrow> (int \<Rightarrow> error + Process) \<Rightarrow> 64 word \<Rightarrow> sources" where
  "some_sources pids get n =
     \<lparr>GetSystemLoad = Inr \<lparr>Load1 = Finite 0, Load5 = Finite 0, Load15 = Finite 0\<rparr>,
      GetCpuTimes = Inr (a_CpuTimes 1000 4000),
      GetMemory = Inr (a_MemStat n),
      GetSwap = Inr (a_MemStat n),
      Pids = (pids, None),
      GetProcess = get,
      GetMemoryFor = (\<lambda>pid. Inr (a_MemStat n))\<rparr>"

text \<open>
  Three snapshots of the process 7: a first one, one taken a second later and one taken
  within the same millisecond as the first.
\<close>

definition proc_first :: Process where
  "proc_first = a_process 7 ''bash'' 100 50 0"

definition proc_later :: Process where
  "proc_later = a_process 7 ''bash'' 180 70 1000000000"

definition proc_same_ms :: Process where
  "proc_same_ms = a_process 7 ''bash'' 180 70 999999"

text \<open>\<^verbatim>\<open>GetProcess\<close> when the given process is the only one.\<close>

definition get_only :: "Process \<Rightarrow> int \<Rightarrow> error + Process" where
  "get_only p pid = (if pid = Pid p then Inr p else Inl (Error ''no such process''))"

section \<open>Properties\<close>

declare bits.simps [simp del]

subsection \<open>The process matcher\<close>

lemma MatchProcess_loop_iff:
  "MatchProcess_loop ms regs name \<longleftrightarrow> (\<exists>reg\<in>set regs. fst (ms reg name))"
  by (induction regs) (auto split: prod.splits)

lemma Compile_dot_star: "Compile ''.*'' = Inr (Star AnyCharNotNL)"
  by (simp add: Compile_def)

lemma star_ends_Nil: "star_ends f n ps = [] \<Longrightarrow> ps = []"
  by (cases n) auto

lemma dot_star_matches: "fst (MatchString ''.*'' name)"
proof -
  have "ends (Star AnyCharNotNL) name [0..<Suc (length name)] \<noteq> []"
    using star_ends_Nil[of "ends AnyCharNotNL name" "length name" "[0..<Suc (length name)]"]
    by (auto simp del: upt_Suc)
  then show ?thesis
    by (simp add: MatchString_def regexp_MatchString_def Compile_dot_star re_MatchString_def
        del: upt_Suc ends.simps)
qed

text \<open>
  C8. For every name and every pattern list, \<^verbatim>\<open>MatchProcess\<close> is true exactly when
  \<^verbatim>\<open>regexp.MatchString\<close> reports a match of the name for at least one pattern, whatever
  the matcher's answers are; a pattern list with the same patterns in another order gives
  the same result. With the library's meaning of the patterns (a match may start and end
  anywhere in the name), the single pattern \<^verbatim>\<open>.*\<close> matches every name, the single
  pattern \<^verbatim>\<open>^nginx$\<close> matches \<^verbatim>\<open>nginx\<close> and not \<^verbatim>\<open>nginx-worker\<close>, and the
  unanchored pattern \<^verbatim>\<open>nginx\<close> matches \<^verbatim>\<open>nginx-worker\<close>.
\<close>

theorem MatchProcess_any_pattern:
  "(MatchProcess ms t name \<longleftrightarrow> (\<exists>reg\<in>set (procs t). fst (ms reg name)))
   \<and> (mset (procs t') = mset (procs t) \<longrightarrow> MatchProcess ms t' name = MatchProcess ms t name)
   \<and> MatchProcess MatchString (t\<lparr>procs := [''.*'']\<rparr>) name
   \<and> MatchProcess MatchString (t\<lparr>procs := [''^nginx$'']\<rparr>) ''nginx''
   \<and> \<not> MatchProcess MatchString (t\<lparr>procs := [''^nginx$'']\<rparr>) ''nginx-worker''
   \<and> MatchProcess MatchString (t\<lparr>procs := [''nginx'']\<rparr>) ''nginx-worker''"
proof -
  have a: "MatchProcess ms t name \<longleftrightarrow> (\<exists>reg\<in>set (procs t). fst (ms reg name))" for t
    by (simp add: MatchProcess_def MatchProcess_loop_iff)
  have b: "MatchProcess ms t' name = MatchProcess ms t name" if "mset (procs t') = mset (procs t)"
    using mset_eq_setD[OF that] by (simp add: a)
  have c: "MatchProcess MatchString (t\<lparr>procs := [''.*'']\<rparr>) name"
    by (simp add: MatchProcess_def MatchProcess_loop_iff dot_star_matches)
  have d: "MatchString ''^nginx$'' ''nginx'' = (True, None)" by code_simp
  have e: "MatchString ''^nginx$'' ''nginx-worker'' = (False, None)" by code_simp
  have f: "MatchString ''nginx'' ''nginx-worker'' = (True, None)" by code_simp
  show ?thesis using a b c by (simp add: MatchProcess_def d e f)
qed

theorem MatchProcess_any_pattern_witness:
  "mset (procs (Topbeat_zero\<lparr>procs := [''.*'', ''^nginx$'']\<rparr>))
     = mset (procs (Topbeat_zero\<lparr>procs := [''^nginx$'', ''.*'']\<rparr>))
   \<and> (\<exists>reg\<in>set (procs (Topbeat_zero\<lparr>procs := [''^nginx$'', ''.*'']\<rparr>)).
         fst (MatchString reg ''bash''))
   \<and> MatchProcess MatchString (Topbeat_zero\<lparr>procs := [''.*'', ''^nginx$'']\<rparr>) ''bash''
   \<and> MatchProcess MatchString (Topbeat_zero\<lparr>procs := [''^nginx$'', ''.*'']\<rparr>) ''bash''"
proof -
  have m: "mset (procs (Topbeat_zero\<lparr>procs := [''.*'', ''^nginx$'']\<rparr>))
     = mset (procs (Topbeat_zero\<lparr>procs := [''^nginx$'', ''.*'']\<rparr>))" by simp
  have c: "MatchProcess MatchString (Topbeat_zero\<lparr>procs := [''^nginx$'', ''.*'']\<rparr>) ''bash''"
    by code_simp
  from MatchProcess_any_pattern[of MatchString "Topbeat_zero\<lparr>procs := [''^nginx$'', ''.*'']\<rparr>"
      "''bash''" "Topbeat_zero\<lparr>procs := [''.*'', ''^nginx$'']\<rparr>"] m c
  show ?thesis by blast
qed

text \<open>
  C9. A pattern that \<^verbatim>\<open>regexp.Compile\<close> refuses makes \<^verbatim>\<open>regexp.MatchString\<close> return
  \<^verbatim>\<open>false\<close> with the error, which \<^verbatim>\<open>MatchProcess\<close> drops: the pattern matches no
  name, a name that no other pattern matches is not matched, and the result is the one
  of the pattern list without the refused patterns. \<^verbatim>\<open>MatchProcess\<close> returns a truth
  value in every case; there is no error result.
\<close>

theorem MatchProcess_invalid_pattern:
  "(Compile' reg = Inl err \<longrightarrow>
      regexp_MatchString Compile' match reg name = (False, Some err)
      \<and> \<not> MatchProcess (regexp_MatchString Compile' match) (t\<lparr>procs := [reg]\<rparr>) name
      \<and> ((\<forall>r\<in>set (procs t) - {reg}. \<not> fst (regexp_MatchString Compile' match r name))
           \<longrightarrow> \<not> MatchProcess (regexp_MatchString Compile' match) t name))
   \<and> MatchProcess (regexp_MatchString Compile' match) t name
       = MatchProcess (regexp_MatchString Compile' match)
           (t\<lparr>procs := filter (\<lambda>r. \<not> isl (Compile' r)) (procs t)\<rparr>) name"
proof -
  have inv: "\<not> fst (regexp_MatchString Compile' match r name)" if "isl (Compile' r)" for r
    using that by (cases "Compile' r") (simp_all add: regexp_MatchString_def)
  have a: "regexp_MatchString Compile' match reg name = (False, Some err)" if "Compile' reg = Inl err"
    using that by (simp add: regexp_MatchString_def)
  have b: "MatchProcess (regexp_MatchString Compile' match) t name
       = MatchProcess (regexp_MatchString Compile' match)
           (t\<lparr>procs := filter (\<lambda>r. \<not> isl (Compile' r)) (procs t)\<rparr>) name"
    using inv by (auto simp: MatchProcess_def MatchProcess_loop_iff)
  show ?thesis using a b by (auto simp: MatchProcess_def MatchProcess_loop_iff)
qed

theorem MatchProcess_invalid_pattern_witness:
  "Compile ''*'' = Inl (Error ''missing argument to repetition operator'')
   \<and> regexp_MatchString Compile re_MatchString ''*'' ''bash''
       = (False, Some (Error ''missing argument to repetition operator''))
   \<and> \<not> fst (regexp_MatchString Compile re_MatchString ''^nginx$'' ''bash'')
   \<and> \<not> MatchProcess (regexp_MatchString Compile re_MatchString)
         (Topbeat_zero\<lparr>procs := [''*'', ''^nginx$'']\<rparr>) ''bash''
   \<and> \<not> MatchProcess (regexp_MatchString Compile re_MatchString)
         (Topbeat_zero\<lparr>procs := [''*'']\<rparr>) ''bash''"
proof -
  have c: "Compile ''*'' = Inl (Error ''missing argument to repetition operator'')"
    by (simp add: Compile_def)
  have n: "regexp_MatchString Compile re_MatchString ''^nginx$'' ''bash'' = (False, None)"
    by code_simp
  have h: "\<forall>r\<in>set (procs (Topbeat_zero\<lparr>procs := [''*'', ''^nginx$'']\<rparr>)) - {''*''}.
         \<not> fst (regexp_MatchString Compile re_MatchString r ''bash'')"
    using n by simp
  from MatchProcess_invalid_pattern[of Compile "''*''" "Error ''missing argument to repetition operator''"
      re_MatchString "''bash''" "Topbeat_zero\<lparr>procs := [''*'', ''^nginx$'']\<rparr>"] c h n
  show ?thesis by simp
qed

subsection \<open>An empty pattern list\<close>

lemma procs_logp [simp]:
  "procs (logp_Warn f a t) = procs t" "procs (logp_Debug s f a t) = procs t"
  "procsMap (logp_Warn f a t) = procsMap t" "procsMap (logp_Debug s f a t) = procsMap t"
  "events (logp_Warn f a t) = events t" "events (logp_Debug s f a t) = events t"
  by (simp_all add: logp_Warn_def logp_Debug_def)

lemma exportSystemStats_keeps:
  "procs (snd (exportSystemStats src t)) = procs t"
  "procsMap (snd (exportSystemStats src t)) = procsMap t"
  "filter is_ProcEvent (events (snd (exportSystemStats src t))) = filter is_ProcEvent (events t)"
  by (auto simp: exportSystemStats_def getCpuPercentage_def Let_def split: sum.splits prod.splits)

lemma exportProcStats_no_patterns: "procs t = [] \<Longrightarrow> exportProcStats ms src t = (None, t)"
  by (simp add: exportProcStats_def)

lemma tick_no_patterns:
  assumes "procs t = []"
  shows "procs (tick ms src t) = [] \<and> procsMap (tick ms src t) = procsMap t
    \<and> filter is_ProcEvent (events (tick ms src t)) = filter is_ProcEvent (events t)"
proof -
  obtain e t1 where s: "exportSystemStats src t = (e, t1)" by (cases "exportSystemStats src t")
  have p: "procs t1 = []" using exportSystemStats_keeps(1)[of src t] assms s by simp
  show ?thesis
    using exportSystemStats_keeps[of src t] s
    by (simp add: tick_def exportProcStats_no_patterns[OF p] p)
qed

lemma Run_loop_no_patterns:
  "procs t = [] \<Longrightarrow> procsMap (Run_loop ms passes t) = procsMap t
    \<and> filter is_ProcEvent (events (Run_loop ms passes t)) = filter is_ProcEvent (events t)"
proof (induction passes arbitrary: t)
  case Nil
  then show ?case by simp
next
  case (Cons src passes)
  from tick_no_patterns[OF Cons.prems, of ms src] Cons.IH[of "tick ms src t"]
  show ?case by simp
qed

text \<open>
  C10. When the configuration gives the empty pattern list, \<^verbatim>\<open>Init\<close> stores it;
  \<^verbatim>\<open>initProcStats\<close> then only resets the map, and \<^verbatim>\<open>exportProcStats\<close> returns
  \<^verbatim>\<open>nil\<close> with the state unchanged, whatever the sources would answer and without a
  line in the log. After a whole run the map is empty and the channel holds no
  \<^verbatim>\<open>proc\<close> event beyond those it held at the start. When the configuration gives no
  pattern list, the list is the single pattern \<^verbatim>\<open>.*\<close>.
\<close>

theorem no_patterns_no_proc_events:
  "(Procs config = Some [] \<longrightarrow>
      procs (snd (Init config evs t0)) = []
      \<and> initProcStats src (snd (Init config evs t0)) = (snd (Init config evs t0))\<lparr>procsMap := Map.empty\<rparr>
      \<and> exportProcStats ms src (snd (Init config evs t0)) = (None, snd (Init config evs t0))
      \<and> procsMap (snd (Run ms start passes (snd (Init config evs t0)))) = Map.empty
      \<and> filter is_ProcEvent (events (snd (Run ms start passes (snd (Init config evs t0)))))
          = filter is_ProcEvent evs)
   \<and> (Procs config = None \<longrightarrow> procs (snd (Init config evs t0)) = [''.*''])"
proof -
  define t where "t = snd (Init config evs t0)"
  have n: "procs t = [''.*'']" if "Procs config = None"
    using that by (simp add: t_def Init_def Let_def split: option.splits)
  have ev: "events t = evs" by (simp add: t_def Init_def Let_def split: option.splits)
  {
    assume c: "Procs config = Some []"
    have p: "procs t = []" using c by (simp add: t_def Init_def Let_def split: option.splits)
    have i: "initProcStats src t = t\<lparr>procsMap := Map.empty\<rparr>" for src
      using p by (simp add: initProcStats_def)
    have e: "exportProcStats ms src t = (None, t)" using p by (rule exportProcStats_no_patterns)
    define t2 where "t2 = initProcStats start (t\<lparr>isAlive := True\<rparr>)"
    have t2: "procs t2 = []" "procsMap t2 = Map.empty" "events t2 = evs"
      using p ev by (simp_all add: t2_def initProcStats_def)
    have r: "Run ms start passes t = (None, Stop (Run_loop ms passes t2))"
      by (simp add: Run_def t2_def Let_def)
    have "procsMap (snd (Run ms start passes t)) = Map.empty
      \<and> filter is_ProcEvent (events (snd (Run ms start passes t))) = filter is_ProcEvent evs"
      using Run_loop_no_patterns[OF t2(1), of ms passes] t2 by (simp add: r Stop_def)
    note p i e this
  }
  then show ?thesis using n unfolding t_def by blast
qed

theorem no_patterns_no_proc_events_witness:
  "Procs \<lparr>Period = None, Procs = Some []\<rparr> = Some []
   \<and> procs (snd (Init \<lparr>Period = None, Procs = Some []\<rparr> [] Topbeat_zero)) = []
   \<and> procsMap (snd (Run MatchString (some_sources [7] (get_only proc_first) 10000000)
         [some_sources [7] (get_only proc_later) 10000000]
         (snd (Init \<lparr>Period = None, Procs = Some []\<rparr> [] Topbeat_zero)))) = Map.empty
   \<and> filter is_ProcEvent (events (snd (Run MatchString
         (some_sources [7] (get_only proc_first) 10000000)
         [some_sources [7] (get_only proc_later) 10000000]
         (snd (Init \<lparr>Period = None, Procs = Some []\<rparr> [] Topbeat_zero))))) = filter is_ProcEvent []
   \<and> Procs \<lparr>Period = None, Procs = None\<rparr> = None
   \<and> procs (snd (Init \<lparr>Period = None, Procs = None\<rparr> [] Topbeat_zero)) = [''.*'']"
proof -
  have a: "Procs \<lparr>Period = None, Procs = Some []\<rparr> = Some []"
    and b: "Procs \<lparr>Period = None, Procs = None\<rparr> = None" by simp_all
  from no_patterns_no_proc_events[of "\<lparr>Period = None, Procs = Some []\<rparr>" "[]" Topbeat_zero
      _ MatchString "some_sources [7] (get_only proc_first) 10000000"
      "[some_sources [7] (get_only proc_later) 10000000]"]
    no_patterns_no_proc_events[of "\<lparr>Period = None, Procs = None\<rparr>" "[]" Topbeat_zero] a b
  show ?thesis by blast
qed

subsection \<open>The stored snapshots\<close>

lemma getProcCpuPercentage_state:
  "procs (snd (getProcCpuPercentage p t)) = procs t"
  "procsMap (snd (getProcCpuPercentage p t))
     = (case procsMap t (Pid p) of None \<Rightarrow> procsMap t | Some old \<Rightarrow> (procsMap t)(Pid p \<mapsto> p))"
  by (simp_all add: getProcCpuPercentage_def Let_def split: option.splits)

lemma getRssPercent_state:
  "procs (snd (getRssPercent memory m t)) = procs t"
  "procsMap (snd (getRssPercent memory m t)) = procsMap t"
  by (simp_all add: getRssPercent_def Let_def split: sum.splits)

lemma step_unmatched:
  "\<not> MatchProcess ms t (Name p) \<Longrightarrow> exportProcStats_step ms memory p t = t"
  by (simp add: exportProcStats_step_def)

lemma step_procs: "procs (exportProcStats_step ms memory p t) = procs t"
  by (simp add: exportProcStats_step_def getProcCpuPercentage_def getRssPercent_def Let_def
      split: option.splits sum.splits)

lemma MatchProcess_logp [simp]:
  "MatchProcess ms (logp_Debug s f a t) name = MatchProcess ms t name"
  by (simp add: MatchProcess_def)

lemma step_matched:
  assumes "MatchProcess ms t (Name p)"
  shows "\<exists>stored. same_snapshot stored p
     \<and> procsMap (exportProcStats_step ms memory p t) = (procsMap t)(Pid p \<mapsto> stored)"
proof -
  obtain up t1 where g: "getProcCpuPercentage p t = (up, t1)" by (cases "getProcCpuPercentage p t")
  obtain rp t2 where r: "getRssPercent memory (Mem p) t1 = (rp, t2)"
    by (cases "getRssPercent memory (Mem p) t1")
  define p2 where "p2 = p\<lparr>Cpu := (Cpu p)\<lparr>ProcCpuTime.UserPercent := up\<rparr>,
    Mem := (Mem p)\<lparr>RssPercent := rp\<rparr>\<rparr>"
  have m1: "procsMap t1 = (case procsMap t (Pid p) of None \<Rightarrow> procsMap t | Some old \<Rightarrow> (procsMap t)(Pid p \<mapsto> p))"
    using getProcCpuPercentage_state(2)[of p t] g by simp
  have m2: "procsMap t2 = procsMap t1" using getRssPercent_state(2)[of memory "Mem p" t1] r by simp
  have s: "same_snapshot p2 p" by (simp add: same_snapshot_def p2_def)
  have pid: "Pid p2 = Pid p" by (simp add: p2_def)
  have "procsMap (exportProcStats_step ms memory p t) = (procsMap t2)(Pid p2 \<mapsto> p2)"
    using assms g r by (simp add: exportProcStats_step_def Let_def p2_def)
  also have "\<dots> = (procsMap t)(Pid p \<mapsto> p2)"
    unfolding m2 m1 pid by (simp split: option.splits)
  finally show ?thesis using s by blast
qed

lemma MatchProcess_procs: "procs t' = procs t \<Longrightarrow> MatchProcess ms t' name = MatchProcess ms t name"
  by (simp add: MatchProcess_def)

lemma loop_procs: "procs (exportProcStats_loop ms src pids t) = procs t"
  by (induction pids arbitrary: t) (auto simp: step_procs split: sum.splits)

lemma loop_untouched:
  assumes "\<forall>p\<in>set (fetched (GetProcess src) pids). MatchProcess ms t (Name p) \<longrightarrow> Pid p \<noteq> k"
  shows "procsMap (exportProcStats_loop ms src pids t) k = procsMap t k"
  using assms
proof (induction pids arbitrary: t)
  case Nil
  then show ?case by simp
next
  case (Cons pid pids)
  show ?case
  proof (cases "GetProcess src pid")
    case (Inl err)
    define t' where "t' = logp_Debug ''topbeat'' ''Skip process %d: %v'' [ArgInt pid, ArgError err] t"
    have "\<forall>p\<in>set (fetched (GetProcess src) pids). MatchProcess ms t' (Name p) \<longrightarrow> Pid p \<noteq> k"
      using Cons.prems Inl by (simp add: t'_def)
    from Cons.IH[OF this] show ?thesis using Inl by (simp add: t'_def)
  next
    case (Inr p)
    define t' where "t' = exportProcStats_step ms (GetMemoryFor src pid) p t"
    have pr: "procs t' = procs t" by (simp add: t'_def step_procs)
    have "\<forall>q\<in>set (fetched (GetProcess src) pids). MatchProcess ms t' (Name q) \<longrightarrow> Pid q \<noteq> k"
      using Cons.prems Inr by (simp add: MatchProcess_procs[OF pr])
    from Cons.IH[OF this] have a: "procsMap (exportProcStats_loop ms src pids t') k = procsMap t' k" .
    have b: "procsMap t' k = procsMap t k"
    proof (cases "MatchProcess ms t (Name p)")
      case True
      then have "Pid p \<noteq> k" using Cons.prems Inr by simp
      then show ?thesis using step_matched[OF True, of "GetMemoryFor src pid"] by (auto simp: t'_def)
    next
      case False
      then show ?thesis by (simp add: t'_def step_unmatched)
    qed
    show ?thesis using a b Inr by (simp add: t'_def)
  qed
qed

lemma loop_stored:
  assumes "distinct (map Pid (fetched (GetProcess src) pids))"
    and "p \<in> set (fetched (GetProcess src) pids)"
    and "MatchProcess ms t (Name p)"
  shows "\<exists>stored. procsMap (exportProcStats_loop ms src pids t) (Pid p) = Some stored
     \<and> same_snapshot stored p"
  using assms
proof (induction pids arbitrary: t)
  case Nil
  then show ?case by simp
next
  case (Cons pid pids)
  show ?case
  proof (cases "GetProcess src pid")
    case (Inl err)
    define t' where "t' = logp_Debug ''topbeat'' ''Skip process %d: %v'' [ArgInt pid, ArgError err] t"
    have "MatchProcess ms t' (Name p)" using Cons.prems(3) by (simp add: t'_def)
    from Cons.IH[OF _ _ this] Cons.prems(1,2) Inl show ?thesis by (simp add: t'_def)
  next
    case (Inr q)
    define t' where "t' = exportProcStats_step ms (GetMemoryFor src pid) q t"
    have pr: "procs t' = procs t" by (simp add: t'_def step_procs)
    have d: "distinct (map Pid (fetched (GetProcess src) pids))"
      and nq: "Pid q \<notin> Pid ` set (fetched (GetProcess src) pids)"
      using Cons.prems(1) Inr by simp_all
    show ?thesis
    proof (cases "p \<in> set (fetched (GetProcess src) pids)")
      case True
      have "MatchProcess ms t' (Name p)" using Cons.prems(3) by (simp add: MatchProcess_procs[OF pr])
      from Cons.IH[OF d True this] show ?thesis using Inr by (simp add: t'_def)
    next
      case False
      then have pq: "p = q" using Cons.prems(2) Inr by simp
      have "\<forall>r\<in>set (fetched (GetProcess src) pids). MatchProcess ms t' (Name r) \<longrightarrow> Pid r \<noteq> Pid p"
        using nq pq by (metis image_eqI)
      from loop_untouched[OF this]
      have "procsMap (exportProcStats_loop ms src pids t') (Pid p) = procsMap t' (Pid p)" .
      moreover obtain stored where "same_snapshot stored p" "procsMap t' (Pid p) = Some stored"
        using step_matched[OF Cons.prems(3), of "GetMemoryFor src pid"] pq by (auto simp: t'_def)
      ultimately show ?thesis using Inr by (simp add: t'_def)
    qed
  qed
qed

text \<open>
  C1, as the code has it. In a pass of \<^verbatim>\<open>exportProcStats\<close> over pids whose snapshots
  have distinct pids, a snapshot whose name matches a pattern is afterwards the stored
  snapshot of its pid, with the two percentages filled in; a snapshot whose name matches
  no pattern leaves the entry of its pid as it was, so a later matched observation of the
  pid is compared with the last stored snapshot (the one of start-up or of the last
  matched observation), not with the last observation.
\<close>

theorem exportProcStats_baseline:
  assumes "procs t \<noteq> []" and "Pids src = (pids, None)"
    and "distinct (map Pid (fetched (GetProcess src) pids))"
    and "process \<in> set (fetched (GetProcess src) pids)"
  shows "if MatchProcess ms t (Name process)
         then \<exists>stored. procsMap (snd (exportProcStats ms src t)) (Pid process) = Some stored
                \<and> same_snapshot stored process
         else procsMap (snd (exportProcStats ms src t)) (Pid process) = procsMap t (Pid process)"
proof -
  have e: "snd (exportProcStats ms src t) = exportProcStats_loop ms src pids t"
    using assms(1,2) by (simp add: exportProcStats_def)
  show ?thesis
  proof (cases "MatchProcess ms t (Name process)")
    case True
    then show ?thesis using loop_stored[OF assms(3,4) True] by (simp add: e)
  next
    case False
    have "\<forall>p\<in>set (fetched (GetProcess src) pids). MatchProcess ms t (Name p) \<longrightarrow> Pid p \<noteq> Pid process"
    proof (intro ballI impI)
      fix p assume p: "p \<in> set (fetched (GetProcess src) pids)" and m: "MatchProcess ms t (Name p)"
      have "p \<noteq> process" using m False by auto
      then show "Pid p \<noteq> Pid process"
        using assms(3,4) p by (meson distinct_map inj_onD)
    qed
    from loop_untouched[OF this] False show ?thesis by (simp add: e)
  qed
qed

theorem exportProcStats_baseline_witness:
  "procs (Topbeat_zero\<lparr>procs := [''.*''], procsMap := [7 \<mapsto> proc_first]\<rparr>) \<noteq> []
   \<and> Pids (some_sources [7] (get_only proc_later) 10000000) = ([7], None)
   \<and> distinct (map Pid (fetched (GetProcess (some_sources [7] (get_only proc_later) 10000000)) [7]))
   \<and> proc_later \<in> set (fetched (GetProcess (some_sources [7] (get_only proc_later) 10000000)) [7])
   \<and> MatchProcess MatchString (Topbeat_zero\<lparr>procs := [''.*''], procsMap := [7 \<mapsto> proc_first]\<rparr>)
         (Name proc_later)
   \<and> (\<exists>stored. procsMap (snd (exportProcStats MatchString
           (some_sources [7] (get_only proc_later) 10000000)
           (Topbeat_zero\<lparr>procs := [''.*''], procsMap := [7 \<mapsto> proc_first]\<rparr>))) (Pid proc_later)
         = Some stored \<and> same_snapshot stored proc_later)"
proof -
  have f: "fetched (GetProcess (some_sources [7] (get_only proc_later) 10000000)) [7] = [proc_later]"
    by (simp add: some_sources_def get_only_def proc_later_def a_process_def)
  have a: "procs (Topbeat_zero\<lparr>procs := [''.*''], procsMap := [7 \<mapsto> proc_first]\<rparr>) \<noteq> []" by simp
  have b: "Pids (some_sources [7] (get_only proc_later) 10000000) = ([7], None)"
    by (simp add: some_sources_def)
  have c: "distinct (map Pid (fetched (GetProcess (some_sources [7] (get_only proc_later) 10000000)) [7]))"
    unfolding f by simp
  have d: "proc_later \<in> set (fetched (GetProcess (some_sources [7] (get_only proc_later) 10000000)) [7])"
    unfolding f by simp
  have e: "MatchProcess MatchString (Topbeat_zero\<lparr>procs := [''.*''], procsMap := [7 \<mapsto> proc_first]\<rparr>)
         (Name proc_later)"
    by (simp add: MatchProcess_def MatchProcess_loop_iff dot_star_matches)
  from exportProcStats_baseline[OF a b c d, of MatchString] e a b c d show ?thesis by simp
qed

text \<open>
  The pattern \<^verbatim>\<open>^nginx$\<close> does not match \<^verbatim>\<open>bash\<close>: the pass that observes
  \<open>proc_later\<close> leaves \<open>proc_first\<close> as the stored snapshot of the pid 7.
\<close>

theorem exportProcStats_baseline_counterexample:
  "proc_later \<in> set (fetched (GetProcess (some_sources [7] (get_only proc_later) 10000000)) [7])
   \<and> \<not> MatchProcess MatchString
         (Topbeat_zero\<lparr>procs := [''^nginx$''], procsMap := [7 \<mapsto> proc_first]\<rparr>) (Name proc_later)
   \<and> procsMap (snd (exportProcStats MatchString (some_sources [7] (get_only proc_later) 10000000)
         (Topbeat_zero\<lparr>procs := [''^nginx$''], procsMap := [7 \<mapsto> proc_first]\<rparr>))) 7
       = Some proc_first
   \<and> \<not> same_snapshot proc_first proc_later"
proof -
  have f: "GetProcess (some_sources [7] (get_only proc_later) 10000000) 7 = Inr proc_later"
    by (simp add: some_sources_def get_only_def proc_later_def a_process_def)
  have p: "Pids (some_sources [7] (get_only proc_later) 10000000) = ([7], None)"
    by (simp add: some_sources_def)
  have n: "Name proc_later = ''bash''" by (simp add: proc_later_def a_process_def)
  have "MatchString ''^nginx$'' ''bash'' = (False, None)" by code_simp
  then have m: "\<not> MatchProcess MatchString
         (Topbeat_zero\<lparr>procs := [''^nginx$''], procsMap := [7 \<mapsto> proc_first]\<rparr>) (Name proc_later)"
    by (simp add: MatchProcess_def n)
  have s: "\<not> same_snapshot proc_first proc_later"
    by (simp add: same_snapshot_def proc_first_def proc_later_def a_process_def)
  show ?thesis using m s
    by (simp add: exportProcStats_def p f step_unmatched)
qed

lemma step_new_pid:
  assumes "procsMap t (Pid proc) = None" "MatchProcess ms t (Name proc)"
  shows "procsMap (exportProcStats_step ms memory proc t) (Pid proc)
    = Some (proc\<lparr>Cpu := (Cpu proc)\<lparr>ProcCpuTime.UserPercent := Finite 0\<rparr>,
          Mem := (Mem proc)\<lparr>RssPercent := fst (getRssPercent memory (Mem proc) t)\<rparr>\<rparr>)"
  using assms
  by (simp add: exportProcStats_step_def getProcCpuPercentage_def getRssPercent_def Let_def
      split: sum.splits)

text \<open>
  C2, as the code has it. For a pid with no stored snapshot, \<^verbatim>\<open>getProcCpuPercentage\<close>
  returns 0 and leaves the state, and so the map, unchanged. The snapshot is stored by the
  caller: the body of the loop of \<^verbatim>\<open>exportProcStats\<close>, for a process whose name
  matches, stores the snapshot with the percentage 0 and the memory percentage.
\<close>

theorem getProcCpuPercentage_new_pid:
  "procsMap t (Pid proc) = None \<Longrightarrow>
     getProcCpuPercentage proc t = (Finite 0, t)
     \<and> (MatchProcess ms t (Name proc) \<longrightarrow>
          procsMap (exportProcStats_step ms memory proc t) (Pid proc)
            = Some (proc\<lparr>Cpu := (Cpu proc)\<lparr>ProcCpuTime.UserPercent := Finite 0\<rparr>,
                  Mem := (Mem proc)\<lparr>RssPercent := fst (getRssPercent memory (Mem proc) t)\<rparr>\<rparr>))"
  using step_new_pid[of t proc ms memory] by (simp add: getProcCpuPercentage_def)

theorem getProcCpuPercentage_new_pid_witness:
  "procsMap (Topbeat_zero\<lparr>procs := [''.*'']\<rparr>) (Pid proc_later) = None
   \<and> MatchProcess MatchString (Topbeat_zero\<lparr>procs := [''.*'']\<rparr>) (Name proc_later)
   \<and> getProcCpuPercentage proc_later (Topbeat_zero\<lparr>procs := [''.*'']\<rparr>)
       = (Finite 0, Topbeat_zero\<lparr>procs := [''.*'']\<rparr>)
   \<and> procsMap (exportProcStats_step MatchString (Inr (a_MemStat 10000000)) proc_later
         (Topbeat_zero\<lparr>procs := [''.*'']\<rparr>)) (Pid proc_later)
       = Some (proc_later\<lparr>Cpu := (Cpu proc_later)\<lparr>ProcCpuTime.UserPercent := Finite 0\<rparr>,
           Mem := (Mem proc_later)\<lparr>RssPercent := fst (getRssPercent (Inr (a_MemStat 10000000))
             (Mem proc_later) (Topbeat_zero\<lparr>procs := [''.*'']\<rparr>))\<rparr>\<rparr>)"
proof -
  have a: "procsMap (Topbeat_zero\<lparr>procs := [''.*'']\<rparr>) (Pid proc_later) = None"
    by (simp add: Topbeat_zero_def)
  have b: "MatchProcess MatchString (Topbeat_zero\<lparr>procs := [''.*'']\<rparr>) (Name proc_later)"
    by (simp add: MatchProcess_def MatchProcess_loop_iff dot_star_matches)
  from getProcCpuPercentage_new_pid[OF a, of MatchString "Inr (a_MemStat 10000000)"] a b
  show ?thesis by blast
qed

text \<open>
  With no stored snapshot for the pid 7, the map has no entry for it after the call either.
\<close>

theorem getProcCpuPercentage_new_pid_counterexample:
  "procsMap Topbeat_zero (Pid proc_later) = None
   \<and> fst (getProcCpuPercentage proc_later Topbeat_zero) = Finite 0
   \<and> procsMap (snd (getProcCpuPercentage proc_later Topbeat_zero)) (Pid proc_later) = None"
  by (simp add: getProcCpuPercentage_def Topbeat_zero_def)

subsection \<open>Rounding to binary64\<close>

lemma big: "(of_int (2 ^ 1024) :: rat) = 2 powi 1024"
  by simp

lemma bits_nonpos: "n \<le> 0 \<Longrightarrow> bits n = 0"
  by (subst bits.simps) simp

lemma bits_1: "bits 1 = Suc 0"
  by (subst bits.simps) (simp add: bits_nonpos)

lemma bits_pos: "0 < n \<Longrightarrow> 0 < bits n"
  by (subst bits.simps) simp

lemma bits_bounds: "0 < n \<Longrightarrow> 2 ^ (bits n - 1) \<le> n \<and> n < 2 ^ bits n"
proof (induction n rule: bits.induct)
  case (1 n)
  show ?case
  proof (cases "n div 2 \<le> 0")
    case True
    then have "n = 1" using 1(2) by linarith
    then show ?thesis by (simp add: bits_1)
  next
    case False
    then have ih: "2 ^ (bits (n div 2) - 1) \<le> n div 2 \<and> n div 2 < 2 ^ bits (n div 2)"
      using 1 by simp
    have b: "bits n = Suc (bits (n div 2))" using 1(2) by (subst bits.simps) simp
    have p: "0 < bits (n div 2)" using False by (intro bits_pos) simp
    then obtain k where k: "bits (n div 2) = Suc k" by (cases "bits (n div 2)") auto
    have d: "2 * (n div 2) \<le> n" "n < 2 * (n div 2) + 2" by linarith+
    have ih': "2 ^ k \<le> n div 2" "n div 2 < 2 * 2 ^ k" using ih unfolding k by simp_all
    have "2 * 2 ^ k \<le> n" using ih'(1) d(1) by linarith
    moreover have "n < 2 * (2 * 2 ^ k)" using ih'(2) d(2) by linarith
    ultimately show ?thesis unfolding b k by simp
  qed
qed

lemma ilog2_bounds:
  assumes "0 < q"
  shows "2 powi (ilog2 q) \<le> q \<and> q < 2 powi (ilog2 q + 1)"
proof (cases "1 \<le> q")
  case True
  define n where "n = \<lfloor>q\<rfloor>"
  have n: "0 < n" using True by (simp add: n_def)
  have e: "ilog2 q = int (bits n - 1)" using True bits_pos[OF n] by (simp add: ilog2_def n_def)
  have e1: "ilog2 q + 1 = int (bits n)" using e bits_pos[OF n] by simp
  from bits_bounds[OF n] have lo: "2 ^ (bits n - 1) \<le> n" and hi: "n < 2 ^ bits n" by auto
  have "(2::rat) ^ (bits n - 1) \<le> of_int n" using lo
    by (metis of_int_le_iff of_int_numeral of_int_power)
  also have "(of_int n :: rat) \<le> q" by (simp add: n_def)
  finally have A: "2 powi (ilog2 q) \<le> q" unfolding e power_int_of_nat .
  have "q < of_int (2 ^ bits n)" using hi unfolding n_def by (simp only: floor_less_iff)
  then have B: "q < 2 powi (ilog2 q + 1)" unfolding e1 power_int_of_nat by simp
  show ?thesis using A B by simp
next
  case False
  define r where "r = 1 / q"
  have r: "1 < r" using False assms by (simp add: r_def)
  define n where "n = \<lceil>r\<rceil> - 1"
  have c2: "2 \<le> \<lceil>r\<rceil>" using r by linarith
  have n: "0 < n" using c2 by (simp add: n_def)
  have e: "ilog2 q = - int (bits n)" using False by (simp add: ilog2_def n_def r_def)
  from bits_bounds[OF n] have lo: "2 ^ (bits n - 1) \<le> n" and hi: "n < 2 ^ bits n" by auto
  have "\<lceil>r\<rceil> \<le> 2 ^ bits n" using hi by (simp add: n_def)
  then have "r \<le> of_int (2 ^ bits n)" by (simp only: ceiling_le_iff)
  then have rle: "r \<le> 2 ^ bits n" by simp
  have A: "2 powi (ilog2 q) \<le> q"
  proof -
    have "1 / 2 ^ bits n \<le> 1 / r" using rle r by (simp add: frac_le)
    then show ?thesis unfolding e power_int_minus_divide power_int_of_nat using assms by (simp add: r_def)
  qed
  have "2 ^ (bits n - 1) < \<lceil>r\<rceil>" using lo by (simp add: n_def)
  then have "of_int (2 ^ (bits n - 1)) < r" by (simp only: less_ceiling_iff)
  then have rgt: "2 ^ (bits n - 1) < r" by simp
  have e1: "ilog2 q + 1 = - int (bits n - 1)" using e bits_pos[OF n] by simp
  have B: "q < 2 powi (ilog2 q + 1)"
  proof -
    have "1 / r < 1 / 2 ^ (bits n - 1)" using rgt by (simp add: frac_less2)
    then show ?thesis unfolding e1 power_int_minus_divide power_int_of_nat using assms by (simp add: r_def)
  qed
  show ?thesis using A B by simp
qed

lemma ilog2_mono:
  assumes "0 < q" "q \<le> q'"
  shows "ilog2 q \<le> ilog2 q'"
proof (rule ccontr)
  assume "\<not> ilog2 q \<le> ilog2 q'"
  then have "ilog2 q' + 1 \<le> ilog2 q" by simp
  then have "(2::rat) powi (ilog2 q' + 1) \<le> 2 powi (ilog2 q)" by (intro power_int_increasing) auto
  moreover have "2 powi (ilog2 q) \<le> q" using ilog2_bounds[OF assms(1)] by simp
  moreover have "q' < 2 powi (ilog2 q' + 1)" using ilog2_bounds[of q'] assms by simp
  ultimately show False using assms by linarith
qed

lemma rne_mono: "x \<le> y \<Longrightarrow> rne x \<le> rne y"
proof -
  assume xy: "x \<le> y"
  have fl: "\<lfloor>x\<rfloor> \<le> \<lfloor>y\<rfloor>" using xy by (rule floor_mono)
  show ?thesis
  proof (cases "\<lfloor>x\<rfloor> = \<lfloor>y\<rfloor>")
    case True
    then show ?thesis using xy by (auto simp: rne_def Let_def)
  next
    case False
    then have "\<lfloor>x\<rfloor> + 1 \<le> \<lfloor>y\<rfloor>" using fl by simp
    moreover have "rne x \<le> \<lfloor>x\<rfloor> + 1" by (simp add: rne_def Let_def)
    moreover have "\<lfloor>y\<rfloor> \<le> rne y" by (simp add: rne_def Let_def)
    ultimately show ?thesis by linarith
  qed
qed

lemma rne_of_int [simp]: "rne (of_int n) = n"
  by (simp add: rne_def)


lemma round64_nonneg_cases:
  assumes "0 < q"
  obtains (fin) m where "round64 q = Finite m" "0 \<le> m"
    "m = of_int (rne (q / 2 powi (max (ilog2 q) (- 1022) - 52))) * 2 powi (max (ilog2 q) (- 1022) - 52)"
    "m < 2 powi 1024"
  | (inf) "round64 q = PosInf"
    "2 powi 1024 \<le> of_int (rne (q / 2 powi (max (ilog2 q) (- 1022) - 52))) * (2::rat) powi (max (ilog2 q) (- 1022) - 52)"
proof -
  define u :: rat where "u = 2 powi (max (ilog2 q) (- 1022) - 52)"
  have u: "0 < u" by (simp add: u_def zero_less_power_int)
  have "0 \<le> q / u" using assms u by simp
  then have "rne 0 \<le> rne (q / u)" by (rule rne_mono)
  then have r: "0 \<le> rne (q / u)" using rne_of_int[of 0] by simp
  show ?thesis
  proof (cases "2 powi 1024 \<le> of_int (rne (q / u)) * u")
    case True
    then have "round64 q = PosInf" using assms by (simp add: round64_def Let_def u_def big)
    then show ?thesis using True inf unfolding u_def by blast
  next
    case False
    then have "round64 q = Finite (of_int (rne (q / u)) * u)" using assms
      by (simp add: round64_def Let_def u_def big)
    moreover have "0 \<le> of_int (rne (q / u)) * u" using r u by simp
    ultimately show ?thesis using False fin unfolding u_def by (metis not_le)
  qed
qed

lemma round64_mag_mono:
  assumes "0 < q" "q \<le> q'"
  shows "of_int (rne (q / 2 powi (max (ilog2 q) (- 1022) - 52))) * (2::rat) powi (max (ilog2 q) (- 1022) - 52)
       \<le> of_int (rne (q' / 2 powi (max (ilog2 q') (- 1022) - 52))) * 2 powi (max (ilog2 q') (- 1022) - 52)"
proof -
  define e where "e = max (ilog2 q) (- 1022)"
  define e' where "e' = max (ilog2 q') (- 1022)"
  define u :: rat where "u = 2 powi (e - 52)"
  define u' :: rat where "u' = 2 powi (e' - 52)"
  have q': "0 < q'" using assms by simp
  have u: "0 < u" and u': "0 < u'" by (simp_all add: u_def u'_def zero_less_power_int)
  have ee: "e \<le> e'" using ilog2_mono[OF assms] by (simp add: e_def e'_def)
  have goal: "of_int (rne (q / u)) * u \<le> of_int (rne (q' / u')) * u'"
  proof (cases "e = e'")
    case True
    then have uu: "u' = u" by (simp add: u_def u'_def)
    have "q / u \<le> q' / u" using assms u by (simp add: divide_right_mono)
    then have "rne (q / u) \<le> rne (q' / u)" by (rule rne_mono)
    then show ?thesis unfolding uu using u by simp
  next
    case False
    then have lt: "e + 1 \<le> e'" using ee by simp
    then have e'q: "e' = ilog2 q'" by (simp add: e_def e'_def)
    have "q < 2 powi (ilog2 q + 1)" using ilog2_bounds[OF assms(1)] by simp
    also have "\<dots> \<le> 2 powi (e + 1)" by (intro power_int_increasing) (simp_all add: e_def)
    finally have qlt: "q < 2 powi (e + 1)" .
    have s1: "2 powi (e + 1) = (2::rat) powi 53 * 2 powi (e - 52)"
      using power_int_add[of "2::rat" 53 "e - 52"] by (simp add: add.commute)
    then have "q / u \<le> 2 powi 53" using qlt u by (simp add: u_def pos_divide_le_eq)
    then have "q / u \<le> of_int (2 ^ 53)" by simp
    then have "rne (q / u) \<le> rne (of_int (2 ^ 53))" by (rule rne_mono)
    then have "rne (q / u) \<le> 2 ^ 53" by (simp only: rne_of_int)
    then have "(of_int (rne (q / u)) :: rat) \<le> of_int (2 ^ 53)" by (simp only: of_int_le_iff)
    then have "of_int (rne (q / u)) * u \<le> of_int (2 ^ 53) * u" using u by (simp only: mult_le_cancel_right_pos)
    also have "\<dots> = 2 powi (e + 1)"
      unfolding u_def s1 by simp
    finally have m_le: "of_int (rne (q / u)) * u \<le> 2 powi (e + 1)" .
    have "2 powi e' \<le> q'" using ilog2_bounds[OF q'] e'q by simp
    moreover have s2: "2 powi e' = (2::rat) powi 52 * 2 powi (e' - 52)"
      using power_int_add[of "2::rat" 52 "e' - 52"] by simp
    ultimately have "of_int (2 ^ 52) \<le> q' / u'" using u' by (simp add: u'_def pos_le_divide_eq)
    then have "rne (of_int (2 ^ 52)) \<le> rne (q' / u')" by (rule rne_mono)
    then have "2 ^ 52 \<le> rne (q' / u')" by (simp only: rne_of_int)
    then have "(of_int (2 ^ 52) :: rat) \<le> of_int (rne (q' / u'))" by (simp only: of_int_le_iff)
    then have "of_int (2 ^ 52) * u' \<le> of_int (rne (q' / u')) * u'" using u' by (simp only: mult_le_cancel_right_pos)
    moreover have "of_int (2 ^ 52) * u' = 2 powi e'"
      unfolding u'_def s2 by simp
    ultimately have m'_ge: "2 powi e' \<le> of_int (rne (q' / u')) * u'" by simp
    have "(2::rat) powi (e + 1) \<le> 2 powi e'" using lt by (intro power_int_increasing) simp_all
    then show ?thesis using m_le m'_ge by linarith
  qed
  then show ?thesis unfolding u_def u'_def e_def e'_def .
qed

lemma round64_mono:
  assumes "0 \<le> q" "q \<le> q'" "round64 q' = Finite b"
  shows "\<exists>a. round64 q = Finite a \<and> 0 \<le> a \<and> a \<le> b"
proof (cases "q = 0")
  case True
  show ?thesis
  proof (cases "q' = 0")
    case True
    then show ?thesis using \<open>q = 0\<close> assms by (simp add: round64_def)
  next
    case False
    then have "0 < q'" using assms by simp
    then show ?thesis using assms(3) True
      by (cases q' rule: round64_nonneg_cases) (auto simp: round64_def)
  qed
next
  case False
  then have q: "0 < q" using assms by simp
  then have q': "0 < q'" using assms by simp
  from q' assms(3) have b: "b = of_int (rne (q' / 2 powi (max (ilog2 q') (- 1022) - 52))) * 2 powi (max (ilog2 q') (- 1022) - 52)"
    and blt: "b < 2 powi 1024"
    by (cases q' rule: round64_nonneg_cases; simp)+
  from q show ?thesis
  proof (cases q rule: round64_nonneg_cases)
    case (fin m)
    then show ?thesis using round64_mag_mono[OF q assms(2)] b by simp
  next
    case inf
    then show ?thesis using round64_mag_mono[OF q assms(2)] b blt by simp
  qed
qed


lemma round64_nat_exact:
  assumes "n \<le> 2 ^ 53"
  shows "round64 (of_nat n) = Finite (of_nat n)"
proof (cases "n = 0")
  case True
  then show ?thesis by (simp add: round64_def)
next
  case False
  define q :: rat where "q = of_nat n"
  have q: "0 < q" using False by (simp add: q_def)
  have q1: "1 \<le> q" using False by (simp add: q_def)
  have qle: "q \<le> 2 powi 53" using assms unfolding q_def
    by (metis of_nat_le_iff of_nat_numeral of_nat_power power_int_numeral)
  define e where "e = ilog2 q"
  have "0 < bits \<lfloor>q\<rfloor>" using q1 by (intro bits_pos) simp
  then have e0: "0 \<le> e" using q1 by (simp add: e_def ilog2_def)
  have "2 powi e \<le> q" using ilog2_bounds[OF q] by (simp add: e_def)
  then have "(2::rat) powi e \<le> 2 powi 53" using qle by linarith
  then have e53: "e \<le> 53" by (rule power_int_le_imp_le_exp[rotated]) simp_all
  have mx: "max e (- 1022) = e" using e0 by simp
  have int_q: "\<exists>k::int. q / 2 powi (e - 52) = of_int k"
  proof (cases "e = 53")
    case True
    have "q < 2 powi (e + 1)" using ilog2_bounds[OF q] by (simp add: e_def)
    have "2 powi 53 \<le> q" using ilog2_bounds[OF q] True by (simp add: e_def)
    then have "q = 2 powi 53" using qle by simp
    then have "q / 2 powi (e - 52) = of_int (2 ^ 52)" using True by simp
    then show ?thesis by blast
  next
    case False
    then have "0 \<le> 52 - e" using e53 by simp
    then obtain j where j: "52 - e = int j" using nonneg_int_cases by blast
    have "q / 2 powi (e - 52) = q * 2 powi (52 - e)"
      using power_int_minus[of "2::rat" "e - 52"] by (simp add: field_simps)
    also have "\<dots> = of_int (int n * 2 ^ j)" unfolding j power_int_of_nat q_def by simp
    finally show ?thesis by blast
  qed
  then obtain k where k: "q / 2 powi (e - 52) = of_int k" by blast
  have u: "(2::rat) powi (e - 52) \<noteq> 0" by simp
  have m: "of_int (rne (q / 2 powi (e - 52))) * 2 powi (e - 52) = q"
    unfolding k rne_of_int using k u by (simp add: field_simps)
  have "q < 2 powi 1024"
  proof -
    have "(2::rat) powi 53 < 2 powi 1024" by (intro power_int_strict_increasing) simp_all
    then show ?thesis using qle by linarith
  qed
  then have "round64 q = Finite q" using q m
    by (simp add: round64_def Let_def e_def[symmetric] mx not_le big)
  then show ?thesis by (simp add: q_def)
qed

lemma round64_int_exact:
  assumes "0 \<le> i" "i \<le> 2 ^ 53"
  shows "round64 (of_int i) = Finite (of_int i)"
proof -
  have "nat i \<le> 2 ^ 53" using assms by (simp add: nat_le_iff)
  from round64_nat_exact[OF this] show ?thesis using assms(1) by simp
qed

lemma Pow10_2: "Pow10 2 = Finite 100"
  by code_simp

lemma round64_100: "round64 100 = Finite 100"
  by code_simp

lemma round64_10000: "round64 10000 = Finite 10000"
  by code_simp

lemma Round_bounds:
  assumes "0 \<le> a" "a \<le> 100"
  shows "\<exists>z. Round (Finite a) (Finite (1 / 2)) 2 = Finite z \<and> 0 \<le> z \<and> z \<le> 100"
proof -
  have "0 \<le> 100 * a" "100 * a \<le> 10000" using assms by simp_all
  from round64_mono[OF this round64_10000]
  obtain d where d: "round64 (100 * a) = Finite d" "0 \<le> d" "d \<le> 10000" by blast
  define r :: int where "r = (if 1 / 2 \<le> d - of_int \<lfloor>d\<rfloor> then \<lceil>d\<rceil> else \<lfloor>d\<rfloor>)"
  have "0 \<le> \<lceil>d\<rceil>" "0 \<le> \<lfloor>d\<rfloor>" using d(2) by simp_all
  then have r0: "0 \<le> r" by (simp add: r_def)
  have "\<lceil>d\<rceil> \<le> 10000" using d(3) by (simp add: ceiling_le_iff)
  moreover have "\<lfloor>d\<rfloor> \<le> 10000" using d(3) by (simp add: floor_le_iff)
  ultimately have r1: "r \<le> 10000" by (simp add: r_def)
  have R: "Round (Finite a) (Finite (1 / 2)) 2 = round64 (of_int r / 100)"
    using d(1,2) by (simp add: Round_def Pow10_2 Let_def r_def not_less)
  have "(0::rat) \<le> of_int r / 100" "(of_int r :: rat) / 100 \<le> 100" using r0 r1 by simp_all
  from round64_mono[OF this round64_100] show ?thesis unfolding R by blast
qed

lemma Round_half_up_scaled:
  assumes "Pow10 p = Finite pw" "fmul (Finite pw) (Finite v) = Finite d" "0 \<le> d"
  shows "Round (Finite v) (Finite (1 / 2)) p = fdiv (Finite (of_int \<lfloor>d + 1 / 2\<rfloor>)) (Finite pw)"
proof -
  have h: "(if 1 / 2 \<le> d - of_int \<lfloor>d\<rfloor> then of_int \<lceil>d\<rceil> else of_int \<lfloor>d\<rfloor>) = (of_int \<lfloor>d + 1 / 2\<rfloor> :: rat)"
  proof (cases "1 / 2 \<le> d - of_int \<lfloor>d\<rfloor>")
    case True
    have "\<lfloor>d + 1 / 2\<rfloor> = \<lfloor>d\<rfloor> + 1" using True by (intro floor_unique) (auto, linarith+)
    moreover have "\<lceil>d\<rceil> = \<lfloor>d\<rfloor> + 1" using True by (intro ceiling_unique) (auto, linarith+)
    ultimately show ?thesis using True by simp
  next
    case False
    have "\<lfloor>d + 1 / 2\<rfloor> = \<lfloor>d\<rfloor>" using False by (intro floor_unique) (auto, linarith+)
    then show ?thesis using False by simp
  qed
  have "Round (Finite v) (Finite (1 / 2)) p
      = fdiv (Finite (if 1 / 2 \<le> d - of_int \<lfloor>d\<rfloor> then of_int \<lceil>d\<rceil> else of_int \<lfloor>d\<rfloor>)) (Finite pw)"
    using assms by (simp add: Round_def Let_def not_less del: fmul.simps fdiv.simps)
  then show ?thesis unfolding h .
qed

lemma snd_Modf: "snd (Modf x) = fractional_part x"
  by (cases x) (auto simp: ceiling_def)

lemma Round_roundHalfUp: "Round val roundOn places = roundHalfUp val roundOn places"
proof -
  have c: "fmul (Pow10 places) val = fmul val (Pow10 places)"
    by (cases val; cases "Pow10 places") (auto simp: mult.commute)
  show ?thesis
    by (simp add: Round_def roundHalfUp_def Let_def snd_Modf c)
qed

lemma Round_zero: "Round (Finite 0) (Finite (1 / 2)) 2 = Finite 0"
  by code_simp

lemma uint_100: "uint (100 :: 64 word) = 100"
  by simp


subsection \<open>Round\<close>

text \<open>
  C6, as the code has it. \<^verbatim>\<open>Round\<close> is the rounding rule of its description, computed
  in \<^verbatim>\<open>float64\<close> arithmetic. For a value whose scaled product \<open>d\<close> (the product
  \<^verbatim>\<open>pow * val\<close> as rounded to binary64) is not negative, the result with the threshold
  0.5 is the round-half-up of \<open>d\<close> divided by \<open>pow\<close> in \<^verbatim>\<open>float64\<close>; when the
  power of ten and the product are exact, it is the \<^verbatim>\<open>float64\<close> nearest to the
  round-half-up of the value. \<^verbatim>\<open>Round(2.345, .5, 2)\<close> is \<^verbatim>\<open>2.35\<close> and
  \<^verbatim>\<open>Round(0, .5, 2)\<close> is 0.
\<close>

theorem Round_reference:
  "Round val roundOn places = roundHalfUp val roundOn places
   \<and> (Pow10 places = Finite pw \<and> fmul (Finite pw) (Finite v) = Finite d \<and> 0 \<le> d \<longrightarrow>
        Round (Finite v) (Finite (1 / 2)) places = fdiv (Finite (of_int \<lfloor>d + 1 / 2\<rfloor>)) (Finite pw))
   \<and> (0 \<le> v \<and> Pow10 places = Finite (10 powi places)
        \<and> fmul (Pow10 places) (Finite v) = Finite (10 powi places * v) \<longrightarrow>
        Round (Finite v) (Finite (1 / 2)) places = round64 (half_up v places))
   \<and> Round (round64 (2345 / 1000)) (Finite (1 / 2)) 2 = round64 (235 / 100)
   \<and> Round (Finite 0) (Finite (1 / 2)) 2 = Finite 0"
proof -
  have b: "Round (Finite v) (Finite (1 / 2)) places = round64 (half_up v places)"
    if v: "0 \<le> v" and p: "Pow10 places = Finite (10 powi places)"
      and m: "fmul (Pow10 places) (Finite v) = Finite (10 powi places * v)"
  proof -
    have pos: "(0::rat) < 10 powi places" by (simp add: zero_less_power_int)
    have d: "0 \<le> 10 powi places * v" using v pos by simp
    from Round_half_up_scaled[OF p m[unfolded p] d] pos
    show ?thesis by (simp add: half_up_def mult.commute)
  qed
  have c: "Round (round64 (2345 / 1000)) (Finite (1 / 2)) 2 = round64 (235 / 100)"
    by code_simp
  show ?thesis using Round_roundHalfUp Round_half_up_scaled b c Round_zero by blast
qed

theorem Round_reference_witness:
  "Pow10 1 = Finite 10 \<and> fmul (Finite 10) (Finite (1 / 4)) = Finite (5 / 2) \<and> (0::rat) \<le> 5 / 2
   \<and> (0::rat) \<le> 1 / 4 \<and> Pow10 1 = Finite (10 powi 1)
   \<and> fmul (Pow10 1) (Finite (1 / 4)) = Finite (10 powi 1 * (1 / 4))
   \<and> Round (Finite (1 / 4)) (Finite (1 / 2)) 1 = fdiv (Finite (of_int \<lfloor>5 / 2 + 1 / 2 :: rat\<rfloor>)) (Finite 10)
   \<and> Round (Finite (1 / 4)) (Finite (1 / 2)) 1 = round64 (half_up (1 / 4) 1)
   \<and> half_up (1 / 4) 1 = 3 / 10"
proof -
  have h1: "Pow10 1 = Finite 10" by code_simp
  have h2: "fmul (Finite 10) (Finite (1 / 4)) = Finite (5 / 2)" by code_simp
  have h3: "Pow10 1 = Finite (10 powi 1)" using h1 by simp
  have h4: "fmul (Pow10 1) (Finite (1 / 4)) = Finite (10 powi 1 * (1 / 4))" using h2 by (simp add: h1 del: fmul.simps)
  have h5: "half_up (1 / 4) 1 = 3 / 10" by code_simp
  have h6: "(0::rat) \<le> 5 / 2" "(0::rat) \<le> 1 / 4" by simp_all
  from Round_reference[of "Finite (1 / 4)" "Finite (1 / 2)" 1 10 "1 / 4" "5 / 2"] h1 h2 h3 h4 h5 h6
  show ?thesis by blast
qed

text \<open>
  The \<^verbatim>\<open>float64\<close> nearest to 1.115 is less than 1.115, so its round-half-up to two
  decimals is 1.11; its product with 100 rounds to 111.5, and \<^verbatim>\<open>Round\<close> returns 1.12.
  In the other direction, the \<^verbatim>\<open>float64\<close> nearest to 1.005 gives 1, where the
  round-half-up of the decimal 1.005 is 1.01.
\<close>

theorem Round_reference_counterexample:
  "round64 (1115 / 1000) = Finite (5021513584518103 / 4503599627370496)
   \<and> half_up (5021513584518103 / 4503599627370496) 2 = 111 / 100
   \<and> Round (Finite (5021513584518103 / 4503599627370496)) (Finite (1 / 2)) 2 = round64 (112 / 100)
   \<and> round64 (112 / 100) \<noteq> round64 (111 / 100)
   \<and> half_up (1005 / 1000) 2 = 101 / 100
   \<and> Round (round64 (1005 / 1000)) (Finite (1 / 2)) 2 = Finite 1"
  by code_simp

subsection \<open>The system CPU percentage\<close>

lemma getCpuPercentage_second:
  assumes t1: "lastCpuTimes t = Some t1"
    and pos: "0 < CpuTimes.User t2 - CpuTimes.User t1"
    and le: "CpuTimes.User t2 - CpuTimes.User t1 \<le> sum_CpuTimes t2 - sum_CpuTimes t1"
    and small: "uint (sum_CpuTimes t2 - sum_CpuTimes t1) * 100 \<le> 2 ^ 53"
  shows "(\<exists>z. fst (getCpuPercentage t2 t) = Finite z \<and> 0 \<le> z \<and> z \<le> 100)
    \<and> fst (getCpuPercentage t2 t)
        = Round (round64 (of_int (100 * uint (CpuTimes.User t2 - CpuTimes.User t1))
                   / of_int (uint (sum_CpuTimes t2 - sum_CpuTimes t1)))) (Finite (1 / 2)) 2
    \<and> snd (getCpuPercentage t2 t) = t\<lparr>lastCpuTimes := Some t2\<rparr>"
proof -
  define ud where "ud = CpuTimes.User t2 - CpuTimes.User t1"
  define ad where "ad = sum_CpuTimes t2 - sum_CpuTimes t1"
  define n where "n = uint ud"
  define m where "m = uint ad"
  have n0: "0 \<le> n" by (simp add: n_def)
  have ule: "n \<le> m" using le by (simp add: ud_def ad_def n_def m_def word_le_def)
  have upos: "0 < n" using pos by (simp add: ud_def n_def word_less_def)
  have s: "m * 100 \<le> 2 ^ 53" using small by (simp add: ad_def m_def)
  have us: "n * 100 \<le> 2 ^ 53" using ule s by linarith
  have "(2::int) ^ 53 < 2 ^ 64" by simp
  then have "uint (100 :: 64 word) * uint ud < 2 ^ LENGTH(64)"
    using us by (simp add: uint_100 n_def)
  then have mul: "uint (100 * ud) = 100 * n"
    using uint_mult_lem[of "100 :: 64 word" ud] by (simp add: uint_100 n_def)
  have X: "float64_of_uint64 (100 * ud) = Finite (of_int (100 * n))"
    unfolding float64_of_uint64_def mul using us n0 by (intro round64_int_exact) simp_all
  have Y: "float64_of_uint64 ad = Finite (of_int m)"
    unfolding float64_of_uint64_def m_def[symmetric] using s upos ule
    by (intro round64_int_exact) simp_all
  have mpos: "0 < m" using ule upos by linarith
  then have ynz: "(of_int m :: rat) \<noteq> 0" by simp
  define q :: rat where "q = of_int (100 * n) / of_int m"
  have perc: "fdiv (float64_of_uint64 (100 * ud)) (float64_of_uint64 ad) = round64 q"
    using ynz by (simp add: X Y q_def)
  have q0: "0 \<le> q" using n0 mpos by (simp add: q_def)
  have "(of_int (100 * n) :: rat) \<le> 100 * of_int m" using ule by simp
  then have q1: "q \<le> 100" using mpos by (simp add: q_def pos_divide_le_eq)
  from round64_mono[OF q0 q1 round64_100]
  obtain a where a: "round64 q = Finite a" "0 \<le> a" "a \<le> 100" by blast
  have R: "fst (getCpuPercentage t2 t) = Round (round64 q) (Finite (1 / 2)) 2"
    using t1 perc by (simp add: getCpuPercentage_def Let_def ud_def ad_def)
  have S: "snd (getCpuPercentage t2 t) = t\<lparr>lastCpuTimes := Some t2\<rparr>"
    by (simp add: getCpuPercentage_def Let_def)
  from Round_bounds[OF a(2,3)] have "\<exists>z. fst (getCpuPercentage t2 t) = Finite z \<and> 0 \<le> z \<and> z \<le> 100"
    unfolding R a(1) .
  moreover have "fst (getCpuPercentage t2 t)
        = Round (round64 (of_int (100 * uint (CpuTimes.User t2 - CpuTimes.User t1))
                   / of_int (uint (sum_CpuTimes t2 - sum_CpuTimes t1)))) (Finite (1 / 2)) 2"
    unfolding R q_def n_def m_def ud_def ad_def ..
  ultimately show ?thesis using S by blast
qed

text \<open>
  C7, as the code has it. The first call of \<^verbatim>\<open>getCpuPercentage\<close> returns 0 and stores
  the snapshot. A later call whose deltas satisfy \<open>0 < user_delta \<le> all_delta\<close> (as
  holds when no counter decreases) and \<open>100 * all_delta \<le> 2^53\<close> returns a value
  between 0 and 100, both included: \<^verbatim>\<open>100 * user_delta / all_delta\<close> rounded to two
  decimals by \<^verbatim>\<open>Round\<close>, and stores the snapshot. After the snapshot with user 1000 and
  sum 5000, the snapshot with user 1050 and sum 5100 gives 50.
\<close>

theorem getCpuPercentage_range:
  "(lastCpuTimes t = None \<longrightarrow> getCpuPercentage t2 t = (Finite 0, t\<lparr>lastCpuTimes := Some t2\<rparr>))
   \<and> (lastCpuTimes t = Some t1
        \<and> 0 < CpuTimes.User t2 - CpuTimes.User t1
        \<and> CpuTimes.User t2 - CpuTimes.User t1 \<le> sum_CpuTimes t2 - sum_CpuTimes t1
        \<and> uint (sum_CpuTimes t2 - sum_CpuTimes t1) * 100 \<le> 2 ^ 53 \<longrightarrow>
      (\<exists>z. fst (getCpuPercentage t2 t) = Finite z \<and> 0 \<le> z \<and> z \<le> 100)
      \<and> fst (getCpuPercentage t2 t)
          = Round (round64 (of_int (100 * uint (CpuTimes.User t2 - CpuTimes.User t1))
                     / of_int (uint (sum_CpuTimes t2 - sum_CpuTimes t1)))) (Finite (1 / 2)) 2
      \<and> snd (getCpuPercentage t2 t) = t\<lparr>lastCpuTimes := Some t2\<rparr>)
   \<and> fst (getCpuPercentage (a_CpuTimes 1050 4050)
             (snd (getCpuPercentage (a_CpuTimes 1000 4000) Topbeat_zero))) = Finite 50"
proof -
  have a: "getCpuPercentage t2 t = (Finite 0, t\<lparr>lastCpuTimes := Some t2\<rparr>)"
    if "lastCpuTimes t = None"
    using that by (simp add: getCpuPercentage_def Round_zero)
  have p: "snd (getCpuPercentage (a_CpuTimes 1000 4000) Topbeat_zero)
      = Topbeat_zero\<lparr>lastCpuTimes := Some (a_CpuTimes 1000 4000)\<rparr>"
    by (simp add: getCpuPercentage_def)
  have "fst (getCpuPercentage (a_CpuTimes 1050 4050)
             (Topbeat_zero\<lparr>lastCpuTimes := Some (a_CpuTimes 1000 4000)\<rparr>)) = Finite 50"
    by code_simp
  then have c: "fst (getCpuPercentage (a_CpuTimes 1050 4050)
             (snd (getCpuPercentage (a_CpuTimes 1000 4000) Topbeat_zero))) = Finite 50"
    unfolding p .
  show ?thesis using a getCpuPercentage_second[of t t1 t2] c by blast
qed

theorem getCpuPercentage_range_witness:
  "lastCpuTimes Topbeat_zero = None
   \<and> getCpuPercentage (a_CpuTimes 1000 4000) Topbeat_zero
       = (Finite 0, Topbeat_zero\<lparr>lastCpuTimes := Some (a_CpuTimes 1000 4000)\<rparr>)
   \<and> lastCpuTimes (Topbeat_zero\<lparr>lastCpuTimes := Some (a_CpuTimes 1000 4000)\<rparr>)
       = Some (a_CpuTimes 1000 4000)
   \<and> (0 :: 64 word) < CpuTimes.User (a_CpuTimes 1050 4050) - CpuTimes.User (a_CpuTimes 1000 4000)
   \<and> CpuTimes.User (a_CpuTimes 1050 4050) - CpuTimes.User (a_CpuTimes 1000 4000)
       \<le> sum_CpuTimes (a_CpuTimes 1050 4050) - sum_CpuTimes (a_CpuTimes 1000 4000)
   \<and> uint (sum_CpuTimes (a_CpuTimes 1050 4050) - sum_CpuTimes (a_CpuTimes 1000 4000)) * 100 \<le> 2 ^ 53
   \<and> (\<exists>z. fst (getCpuPercentage (a_CpuTimes 1050 4050)
               (Topbeat_zero\<lparr>lastCpuTimes := Some (a_CpuTimes 1000 4000)\<rparr>)) = Finite z
          \<and> 0 \<le> z \<and> z \<le> 100)"
proof -
  have h0: "lastCpuTimes Topbeat_zero = None" by (simp add: Topbeat_zero_def)
  have h1: "lastCpuTimes (Topbeat_zero\<lparr>lastCpuTimes := Some (a_CpuTimes 1000 4000)\<rparr>)
       = Some (a_CpuTimes 1000 4000)" by simp
  have h2: "(0 :: 64 word) < CpuTimes.User (a_CpuTimes 1050 4050) - CpuTimes.User (a_CpuTimes 1000 4000)"
    by (simp add: a_CpuTimes_def)
  have h3: "CpuTimes.User (a_CpuTimes 1050 4050) - CpuTimes.User (a_CpuTimes 1000 4000)
       \<le> sum_CpuTimes (a_CpuTimes 1050 4050) - sum_CpuTimes (a_CpuTimes 1000 4000)"
    by (simp add: a_CpuTimes_def sum_CpuTimes_def)
  have h4: "uint (sum_CpuTimes (a_CpuTimes 1050 4050) - sum_CpuTimes (a_CpuTimes 1000 4000)) * 100 \<le> 2 ^ 53"
    by (simp add: a_CpuTimes_def sum_CpuTimes_def)
  from getCpuPercentage_range[of Topbeat_zero "a_CpuTimes 1000 4000"]
    getCpuPercentage_range[of "Topbeat_zero\<lparr>lastCpuTimes := Some (a_CpuTimes 1000 4000)\<rparr>"
      "a_CpuTimes 1050 4050" "a_CpuTimes 1000 4000"] h0 h1 h2 h3 h4
  show ?thesis by blast
qed

text \<open>
  A user delta of 1 in a delta of 100000 gives 0; a user delta of 50 with the idle
  counter 40 lower, so a delta of 10, gives 500.
\<close>

theorem getCpuPercentage_range_counterexample:
  "sum_CpuTimes (a_CpuTimes 1001 103999) - sum_CpuTimes (a_CpuTimes 1000 4000) = 100000
   \<and> CpuTimes.User (a_CpuTimes 1001 103999) - CpuTimes.User (a_CpuTimes 1000 4000) = 1
   \<and> fst (getCpuPercentage (a_CpuTimes 1001 103999)
        (Topbeat_zero\<lparr>lastCpuTimes := Some (a_CpuTimes 1000 4000)\<rparr>)) = Finite 0
   \<and> sum_CpuTimes (a_CpuTimes 1050 3960) - sum_CpuTimes (a_CpuTimes 1000 4000) = 10
   \<and> CpuTimes.User (a_CpuTimes 1050 3960) - CpuTimes.User (a_CpuTimes 1000 4000) = 50
   \<and> fst (getCpuPercentage (a_CpuTimes 1050 3960)
        (Topbeat_zero\<lparr>lastCpuTimes := Some (a_CpuTimes 1000 4000)\<rparr>)) = Finite 500"
proof -
  have a: "fst (getCpuPercentage (a_CpuTimes 1001 103999)
        (Topbeat_zero\<lparr>lastCpuTimes := Some (a_CpuTimes 1000 4000)\<rparr>)) = Finite 0"
    by code_simp
  have b: "fst (getCpuPercentage (a_CpuTimes 1050 3960)
        (Topbeat_zero\<lparr>lastCpuTimes := Some (a_CpuTimes 1000 4000)\<rparr>)) = Finite 500"
    by code_simp
  show ?thesis using a b by (simp add: a_CpuTimes_def sum_CpuTimes_def)
qed

text \<open>
  C4, at equal sums. When the sums of the two snapshots are equal the divisor is zero:
  with equal user counters \<^verbatim>\<open>getCpuPercentage\<close> returns NaN, with a user counter 10
  higher and an idle counter 10 lower it returns the positive infinity.
  \<^verbatim>\<open>getUsedMemPercent\<close> tests its divisor and returns 0.
\<close>

theorem getCpuPercentage_zero_delta:
  "sum_CpuTimes (a_CpuTimes 1000 4000) - sum_CpuTimes (a_CpuTimes 1000 4000) = 0
   \<and> fst (getCpuPercentage (a_CpuTimes 1000 4000)
        (Topbeat_zero\<lparr>lastCpuTimes := Some (a_CpuTimes 1000 4000)\<rparr>)) = NaN
   \<and> sum_CpuTimes (a_CpuTimes 1010 3990) - sum_CpuTimes (a_CpuTimes 1000 4000) = 0
   \<and> fst (getCpuPercentage (a_CpuTimes 1010 3990)
        (Topbeat_zero\<lparr>lastCpuTimes := Some (a_CpuTimes 1000 4000)\<rparr>)) = PosInf
   \<and> getUsedMemPercent (a_MemStat 0) = Finite 0"
proof -
  have a: "fst (getCpuPercentage (a_CpuTimes 1000 4000)
        (Topbeat_zero\<lparr>lastCpuTimes := Some (a_CpuTimes 1000 4000)\<rparr>)) = NaN"
    by code_simp
  have b: "fst (getCpuPercentage (a_CpuTimes 1010 3990)
        (Topbeat_zero\<lparr>lastCpuTimes := Some (a_CpuTimes 1000 4000)\<rparr>)) = PosInf"
    by code_simp
  show ?thesis using a b by (simp add: a_CpuTimes_def sum_CpuTimes_def getUsedMemPercent_def a_MemStat_def)
qed

subsection \<open>The process percentages\<close>

text \<open>
  C3, at a zero interval. With a stored snapshot taken in the same millisecond the
  divisor is zero: \<^verbatim>\<open>getProcCpuPercentage\<close> returns the positive infinity when the cpu
  time grew and NaN when it did not. With the stored snapshot a second older and 100 ms
  of cpu time more, it returns 10.
\<close>

theorem getProcCpuPercentage_zero_interval:
  "quo (Sub (ctime proc_same_ms) (ctime proc_first)) 1000000 = 0
   \<and> fst (getProcCpuPercentage proc_same_ms (Topbeat_zero\<lparr>procsMap := [7 \<mapsto> proc_first]\<rparr>)) = PosInf
   \<and> fst (getProcCpuPercentage proc_first (Topbeat_zero\<lparr>procsMap := [7 \<mapsto> proc_first]\<rparr>)) = NaN
   \<and> fst (getProcCpuPercentage proc_later (Topbeat_zero\<lparr>procsMap := [7 \<mapsto> proc_first]\<rparr>)) = Finite 10"
proof -
  have a: "quo (Sub (ctime proc_same_ms) (ctime proc_first)) 1000000 = 0" by code_simp
  have b: "fst (getProcCpuPercentage proc_same_ms (Topbeat_zero\<lparr>procsMap := [7 \<mapsto> proc_first]\<rparr>)) = PosInf"
    by code_simp
  have c: "fst (getProcCpuPercentage proc_first (Topbeat_zero\<lparr>procsMap := [7 \<mapsto> proc_first]\<rparr>)) = NaN"
    by code_simp
  have d: "fst (getProcCpuPercentage proc_later (Topbeat_zero\<lparr>procsMap := [7 \<mapsto> proc_first]\<rparr>)) = Finite 10"
    by code_simp
  show ?thesis using a b c d by blast
qed

text \<open>
  C5, at a zero total. With 2000000 resident bytes of 10000000, \<^verbatim>\<open>getRssPercent\<close>
  returns 20; when \<^verbatim>\<open>GetMemory\<close> fails it returns 0 and writes one warning; when
  \<^verbatim>\<open>GetMemory\<close> answers a total of zero it returns the positive infinity for a
  process with resident memory and NaN for one without, and writes nothing.
\<close>

theorem getRssPercent_zero_total:
  "fst (getRssPercent (Inr (a_MemStat 10000000)) \<lparr>Rss = 2000000, RssPercent = Finite 0\<rparr> t) = Finite 20
   \<and> getRssPercent (Inl err) m t
       = (Finite 0, t\<lparr>logged := logged t @ [Warn ''Getting memory details: %v'' [ArgError err]]\<rparr>)
   \<and> getRssPercent (Inr (a_MemStat 0)) \<lparr>Rss = 2000000, RssPercent = Finite 0\<rparr> t = (PosInf, t)
   \<and> getRssPercent (Inr (a_MemStat 0)) \<lparr>Rss = 0, RssPercent = Finite 0\<rparr> t = (NaN, t)"
proof -
  have a: "Round (fmul (fdiv (float64_of_uint64 2000000) (float64_of_uint64 10000000)) (Finite 100))
      (Finite (1 / 2)) 2 = Finite 20" by code_simp
  have b: "Round (fmul (fdiv (float64_of_uint64 2000000) (float64_of_uint64 0)) (Finite 100))
      (Finite (1 / 2)) 2 = PosInf" by code_simp
  have c: "Round (fmul (fdiv (float64_of_uint64 0) (float64_of_uint64 0)) (Finite 100))
      (Finite (1 / 2)) 2 = NaN" by code_simp
  show ?thesis using a b c
    by (simp add: getRssPercent_def a_MemStat_def logp_Warn_def Let_def del: fmul.simps fdiv.simps)
qed

end
